theory Spec2Isabelle
  imports Complex_Main "HOL-Library.AList"
begin

section \<open>Candle merge of the lightweight auto-refresh (AssetDetailPage)\<close>

text \<open>
  \<^verbatim>\<open>PricePoint\<close> (types/asset.ts) and the candle of \<^verbatim>\<open>RefreshResponse\<close>
  (services/inventoryApi.ts). Timestamps are integer epochs; prices are JavaScript
  numbers, modelled as reals. The optional fields of a price point are options.
\<close>

record PricePoint =
  date :: string
  timestamp :: int
  price :: real
  open_p :: "real option"
  high :: "real option"
  low :: "real option"
  volume :: "real option"

record RefreshCandle =
  c_date :: string
  c_timestamp :: int
  c_open :: real
  c_high :: real
  c_low :: real
  c_close :: real
  c_price :: real
  c_volume :: real

text \<open>The conversion \<^verbatim>\<open>response.candles.map(c => ({date: c.date, ...}))\<close>; the
  \<^verbatim>\<open>close\<close> field is dropped.\<close>

definition toPricePoint :: "RefreshCandle \<Rightarrow> PricePoint" where
  "toPricePoint c =
     \<lparr> date = c_date c, timestamp = c_timestamp c, price = c_price c,
       open_p = Some (c_open c), high = Some (c_high c), low = Some (c_low c),
       volume = Some (c_volume c) \<rparr>"

text \<open>
  A JavaScript \<^verbatim>\<open>Map\<close> keeps its entries in insertion order; \<^verbatim>\<open>set\<close> on a key
  that is present replaces the value and keeps the position, \<^verbatim>\<open>set\<close> on a new key
  appends. That is \<^const>\<open>AList.update\<close> on an association list.
\<close>

definition Map_set :: "int \<Rightarrow> PricePoint \<Rightarrow> (int \<times> PricePoint) list \<Rightarrow> (int \<times> PricePoint) list" where
  "Map_set k v m = AList.update k v m"

text \<open>\<^verbatim>\<open>new Map(prev.map(p => [p.timestamp, p]))\<close> followed by
  \<^verbatim>\<open>for (const candle of newCandles) existingByTimestamp.set(candle.timestamp, candle)\<close>:
  both loops set every element under its own timestamp.\<close>

definition setAll :: "PricePoint list \<Rightarrow> (int \<times> PricePoint) list \<Rightarrow> (int \<times> PricePoint) list" where
  "setAll ps m = fold (\<lambda>p acc. Map_set (timestamp p) p acc) ps m"

definition Map_values :: "(int \<times> PricePoint) list \<Rightarrow> PricePoint list" where
  "Map_values m = map snd m"

text \<open>
  The updater passed to \<^verbatim>\<open>setHistoryData\<close>. \<^verbatim>\<open>prev\<close> is the state: \<open>None\<close> is
  a null or undefined state (\<^verbatim>\<open>!prev\<close>). \<^verbatim>\<open>Array.prototype.sort\<close> with the comparator
  \<^verbatim>\<open>a.timestamp - b.timestamp\<close> is a stable sort by timestamp, as \<^const>\<open>sort_key\<close> is.
\<close>

definition historyUpdater :: "PricePoint list option \<Rightarrow> RefreshCandle list \<Rightarrow> PricePoint list option" where
  "historyUpdater prev candles =
     (case prev of
        None \<Rightarrow> prev
      | Some ps \<Rightarrow>
          if length ps = 0 then prev
          else
            let newCandles = map toPricePoint candles;
                existingByTimestamp = setAll newCandles (setAll ps []);
                merged = sort_key timestamp (Map_values existingByTimestamp)
            in Some merged)"

text \<open>The whole merge step of the refresh handler:
  \<^verbatim>\<open>if (response.candles && response.candles.length > 0) setHistoryData(prev => ...)\<close>;
  with no candles the state is left as it is.\<close>

definition mergeCandles :: "PricePoint list option \<Rightarrow> RefreshCandle list \<Rightarrow> PricePoint list option" where
  "mergeCandles prev candles =
     (if length candles > 0 then historyUpdater prev candles else prev)"

text \<open>A candle series: strictly ascending timestamps (hence unique).\<close>

definition ascending :: "PricePoint list \<Rightarrow> bool" where
  "ascending ps = sorted_wrt (<) (map timestamp ps)"

text \<open>The element stored for a timestamp in a series, and the last candle of a batch
  with a timestamp.\<close>

definition at_ts :: "int \<Rightarrow> PricePoint list \<Rightarrow> PricePoint option" where
  "at_ts t ps = find (\<lambda>p. timestamp p = t) ps"

definition last_at :: "int \<Rightarrow> PricePoint list \<Rightarrow> PricePoint option" where
  "last_at t ps = find (\<lambda>p. timestamp p = t) (rev ps)"

text \<open>The list the updater returns for a non-empty state, on converted candles.\<close>

definition mergedList :: "PricePoint list \<Rightarrow> PricePoint list \<Rightarrow> PricePoint list" where
  "mergedList ps qs = sort_key timestamp (Map_values (setAll qs (setAll ps [])))"

text \<open>A candle of the scenarios: timestamp and price, the other prices equal to it.\<close>

definition exampleCandle :: "int \<Rightarrow> real \<Rightarrow> RefreshCandle" where
  "exampleCandle t v =
     \<lparr> c_date = [], c_timestamp = t, c_open = v, c_high = v, c_low = v, c_close = v,
       c_price = v, c_volume = 0 \<rparr>"

section \<open>Technical indicators (utils/indicators)\<close>

text \<open>
  Prices and indicator values are JavaScript numbers; they are modelled as reals, so the
  arithmetic below is exact and rounding is outside the model. An indicator value that
  is \<^verbatim>\<open>undefined\<close> is \<open>None\<close>. The period is a natural number; with period 0 the code
  divides by zero (\<^verbatim>\<open>NaN\<close>), which the model does not represent, and the theorems are
  about positive periods. A \<^verbatim>\<open>for\<close> loop over
  \<^verbatim>\<open>i = 0 .. prices.length - 1\<close> that pushes one value per round is a fold over
  \<open>[0..<length prices]\<close> whose accumulator is the array built so far.
\<close>

text \<open>Reading an array at an index that may be out of range gives \<^verbatim>\<open>undefined\<close>.\<close>

definition jsIndex :: "'a option list \<Rightarrow> int \<Rightarrow> 'a option" where
  "jsIndex xs k = (if 0 \<le> k \<and> k < int (length xs) then xs ! nat k else None)"

text \<open>The inner loop \<^verbatim>\<open>for (let j = 0; j < period; j++) sum += prices[i - j]\<close>. It
  runs only where \<open>period - 1 \<le> i\<close>, so every index \<open>i - j\<close> is in range.\<close>

definition windowSum :: "real list \<Rightarrow> nat \<Rightarrow> nat \<Rightarrow> real" where
  "windowSum prices i period = fold (\<lambda>j sum. sum + prices ! (i - j)) [0..<period] 0"

definition calculateSMA :: "real list \<Rightarrow> nat \<Rightarrow> real option list" where
  "calculateSMA prices period =
     fold (\<lambda>i result.
            if int i < int period - 1 then result @ [None]
            else result @ [Some (windowSum prices i period / real period)])
          [0..<length prices] []"

definition calculateEMA :: "real list \<Rightarrow> nat \<Rightarrow> real option list" where
  "calculateEMA prices period =
     (let multiplier = 2 / (real period + 1) in
      fold (\<lambda>i result.
             if int i < int period - 1 then result @ [None]
             else if int i = int period - 1 then
               result @ [Some (windowSum prices i period / real period)]
             else
               (case jsIndex result (int i - 1) of
                  Some previousEMA \<Rightarrow>
                    result @ [Some (prices ! i * multiplier + previousEMA * (1 - multiplier))]
                | None \<Rightarrow> result @ [None]))
           [0..<length prices] [])"

text \<open>\<^verbatim>\<open>Array.prototype.slice(start, end)\<close>: negative positions count from the end, and
  both are clamped to the length.\<close>

definition slice :: "'a list \<Rightarrow> int \<Rightarrow> int \<Rightarrow> 'a list" where
  "slice xs start end =
     (let len = int (length xs);
          k = (if start < 0 then max (len + start) 0 else min start len);
          final = (if end < 0 then max (len + end) 0 else min end len)
      in take (nat (final - k)) (drop (nat k) xs))"

definition calculateStandardDeviation :: "real list \<Rightarrow> real" where
  "calculateStandardDeviation values =
     (let n = length values in
      if n = 0 then 0
      else
        let mean = fold (\<lambda>val sum. sum + val) values 0 / real n;
            squaredDiffs = map (\<lambda>val. (val - mean) ^ 2) values;
            variance = fold (\<lambda>val sum. sum + val) squaredDiffs 0 / real n
        in sqrt variance)"

record BollingerBands =
  upper :: "real option list"
  middle :: "real option list"
  lower :: "real option list"

definition calculateBollingerBands :: "real list \<Rightarrow> nat \<Rightarrow> real \<Rightarrow> BollingerBands" where
  "calculateBollingerBands prices period standardDeviations =
     (let middle = calculateSMA prices period;
          bands = fold (\<lambda>i (upper, lower).
                    if int i < int period - 1 then (upper @ [None], lower @ [None])
                    else
                      (case jsIndex middle (int i) of
                         None \<Rightarrow> (upper @ [None], lower @ [None])
                       | Some middleValue \<Rightarrow>
                           let stdDev = calculateStandardDeviation
                                          (slice prices (int i - int period + 1) (int i + 1))
                           in (upper @ [Some (middleValue + stdDev * standardDeviations)],
                               lower @ [Some (middleValue - stdDev * standardDeviations)])))
                  [0..<length prices] ([], [])
      in \<lparr> upper = fst bands, middle = middle, lower = snd bands \<rparr>)"

text \<open>
  The words of the specification, to compare the code with: the window
  \<open>S[i-p+1..i]\<close>, the arithmetic mean, and the population standard deviation (the
  squared deviations from the mean, divided by the number of values).
\<close>

definition window :: "real list \<Rightarrow> nat \<Rightarrow> nat \<Rightarrow> real list" where
  "window S i p = map (\<lambda>k. S ! k) [i + 1 - p..<i + 1]"

definition mean :: "real list \<Rightarrow> real" where
  "mean xs = sum_list xs / real (length xs)"

definition populationStdDev :: "real list \<Rightarrow> real" where
  "populationStdDev xs = sqrt (sum_list (map (\<lambda>x. (x - mean xs) ^ 2) xs) / real (length xs))"

text \<open>One round of the loop of \<^const>\<open>calculateEMA\<close>, the array after \<open>n\<close> rounds, and
  the value pushed to a band in one round of \<^const>\<open>calculateBollingerBands\<close>.\<close>

definition emaStep :: "real list \<Rightarrow> nat \<Rightarrow> nat \<Rightarrow> real option list \<Rightarrow> real option" where
  "emaStep S p i result =
     (if int i < int p - 1 then None
      else if int i = int p - 1 then Some (windowSum S i p / real p)
      else (case jsIndex result (int i - 1) of
              Some e \<Rightarrow> Some (S ! i * (2 / (real p + 1)) + e * (1 - 2 / (real p + 1)))
            | None \<Rightarrow> None))"

definition emaRun :: "real list \<Rightarrow> nat \<Rightarrow> nat \<Rightarrow> real option list" where
  "emaRun S p n = fold (\<lambda>i result. result @ [emaStep S p i result]) [0..<n] []"

definition bandValue :: "real list \<Rightarrow> nat \<Rightarrow> real \<Rightarrow> real \<Rightarrow> nat \<Rightarrow> real option" where
  "bandValue S p m side i =
     (if int i < int p - 1 then None
      else (case jsIndex (calculateSMA S p) (int i) of
              None \<Rightarrow> None
            | Some middleValue \<Rightarrow>
                Some (middleValue + side * (calculateStandardDeviation
                        (slice S (int i - int p + 1) (int i + 1)) * m))))"

section \<open>Strings\<close>

text \<open>
  Strings are lists of characters. The functions below are the string methods the code
  calls: \<^verbatim>\<open>String.prototype.includes\<close> (a substring test), \<^verbatim>\<open>toLowerCase\<close>,
  \<^verbatim>\<open>split\<close> on a one-character separator and \<^verbatim>\<open>padStart(2, '0')\<close>.
  \<^verbatim>\<open>toLowerCase\<close> is modelled on the letters A to Z: the patterns the code searches for
  are ASCII, and what a character outside ASCII lowers to takes part in no match of them.
\<close>

fun startsWith :: "string \<Rightarrow> string \<Rightarrow> bool" where
  "startsWith s [] = True"
| "startsWith [] (p # ps) = False"
| "startsWith (c # cs) (p # ps) = (c = p \<and> startsWith cs ps)"

fun str_includes :: "string \<Rightarrow> string \<Rightarrow> bool" where
  "str_includes [] pat = (pat = [])"
| "str_includes (c # cs) pat = (startsWith (c # cs) pat \<or> str_includes cs pat)"

definition lowerChar :: "char \<Rightarrow> char" where
  "lowerChar c =
     (case map_of (zip ''ABCDEFGHIJKLMNOPQRSTUVWXYZ'' ''abcdefghijklmnopqrstuvwxyz'') c of
        Some l \<Rightarrow> l
      | None \<Rightarrow> c)"

definition toLowerCase :: "string \<Rightarrow> string" where
  "toLowerCase s = map lowerChar s"

fun split :: "string \<Rightarrow> char \<Rightarrow> string list" where
  "split [] sep = [[]]"
| "split (c # cs) sep =
     (if c = sep then [] # split cs sep
      else (case split cs sep of
              [] \<Rightarrow> [[c]]
            | w # ws \<Rightarrow> (c # w) # ws))"

definition padStart2 :: "string \<Rightarrow> string" where
  "padStart2 s = replicate (2 - length s) (CHR ''0'') @ s"

text \<open>The decimal rendering of an integer, as a template literal renders a number
  that is an integer.\<close>

definition digitChar :: "nat \<Rightarrow> char" where
  "digitChar d = ''0123456789'' ! d"

fun natToString :: "nat \<Rightarrow> string" where
  "natToString n = (if n < 10 then [digitChar n] else natToString (n div 10) @ [digitChar (n mod 10)])"

declare natToString.simps [simp del]

definition intToString :: "int \<Rightarrow> string" where
  "intToString i = (if i < 0 then CHR ''-'' # natToString (nat (- i)) else natToString (nat i))"

text \<open>\<^verbatim>\<open>a % b\<close> on integers: the remainder takes the sign of the dividend.\<close>

definition jsRem :: "int \<Rightarrow> int \<Rightarrow> int" where
  "jsRem a b = sgn a * (\<bar>a\<bar> mod \<bar>b\<bar>)"

section \<open>Error classification (services/errors.ts)\<close>

text \<open>
  A caught value is an instance of one of the four error classes of the file (each
  extends \<^verbatim>\<open>Error\<close>), another \<^verbatim>\<open>Error\<close>, or a value that is not an \<^verbatim>\<open>Error\<close>. The
  constructors carry the fields the classes store; \<open>OtherError\<close> carries the
  message.
\<close>

datatype thrown =
    RateLimitError string real
  | ServerTimeoutError string
  | SymbolNotFoundError string string
  | EmptyHistoryError string string
  | OtherError string
  | NonError

fun instanceofRateLimitError :: "thrown \<Rightarrow> bool" where
  "instanceofRateLimitError (RateLimitError msg waitTime) = True"
| "instanceofRateLimitError e = False"

fun instanceofError :: "thrown \<Rightarrow> bool" where
  "instanceofError NonError = False"
| "instanceofError e = True"

fun message :: "thrown \<Rightarrow> string" where
  "message (RateLimitError msg waitTime) = msg"
| "message (ServerTimeoutError msg) = msg"
| "message (SymbolNotFoundError symbol msg) = msg"
| "message (EmptyHistoryError symbol userMessage) = userMessage"
| "message (OtherError msg) = msg"
| "message NonError = []"

definition isRateLimitError :: "thrown \<Rightarrow> bool" where
  "isRateLimitError error =
     (if instanceofRateLimitError error then True
      else if instanceofError error then
        (let message' = toLowerCase (message error) in
           str_includes message' ''rate limit'' \<or>
           str_includes message' ''too many requests'' \<or>
           str_includes message' ''429'')
      else False)"

section \<open>Timezone conversion (utils/timezone)\<close>

text \<open>
  \<^verbatim>\<open>convertTimezone\<close> calls the platform: \<^verbatim>\<open>Number\<close>, \<^verbatim>\<open>parseInt\<close>, the rendering of a
  number in a template literal, \<^verbatim>\<open>Date.UTC\<close>, \<^verbatim>\<open>new Date\<close> and
  \<^verbatim>\<open>Intl.DateTimeFormat(...).formatToParts\<close>. They are parameters of the model. A
  number is a real or \<^verbatim>\<open>NaN\<close> (\<open>None\<close>); an array element that is missing reads as
  \<^verbatim>\<open>undefined\<close>, which the arithmetic of the function turns into \<^verbatim>\<open>NaN\<close>. Formatting may
  throw (an unknown time zone, an invalid date).
\<close>

datatype jsException = RangeError

type_synonym jsNumber = "real option"

record platform =
  pf_Number :: "string \<Rightarrow> jsNumber"
  pf_parseInt :: "string \<Rightarrow> jsNumber"
  pf_toString :: "jsNumber \<Rightarrow> string"
  pf_DateUTC :: "jsNumber \<Rightarrow> jsNumber \<Rightarrow> jsNumber \<Rightarrow> jsNumber \<Rightarrow> jsNumber \<Rightarrow> jsNumber"
  pf_newDate :: "jsNumber \<Rightarrow> jsNumber"
  pf_formatToParts :: "string \<Rightarrow> jsNumber \<Rightarrow> jsException + (string \<times> string) list"

definition jsNum :: "real \<Rightarrow> jsNumber" where
  "jsNum r = Some r"

definition jsArith :: "(real \<Rightarrow> real \<Rightarrow> real) \<Rightarrow> jsNumber \<Rightarrow> jsNumber \<Rightarrow> jsNumber" where
  "jsArith f a b = (case a of None \<Rightarrow> None | Some x \<Rightarrow> (case b of None \<Rightarrow> None | Some y \<Rightarrow> Some (f x y)))"

definition elementAt :: "jsNumber list \<Rightarrow> nat \<Rightarrow> jsNumber" where
  "elementAt xs k = (if k < length xs then xs ! k else None)"

definition getPartValue :: "platform \<Rightarrow> (string \<times> string) list \<Rightarrow> string \<Rightarrow> jsNumber" where
  "getPartValue pf parts type =
     (case find (\<lambda>p. fst p = type) parts of
        Some part \<Rightarrow> pf_parseInt pf (snd part)
      | None \<Rightarrow> jsNum 0)"

definition hasTime :: "string \<Rightarrow> bool" where
  "hasTime dateStr = (str_includes dateStr '' '' \<and> length (split dateStr (CHR '' '')) > 1)"

text \<open>The body of the \<^verbatim>\<open>try\<close> block. It runs only when \<^const>\<open>hasTime\<close> holds, so the
  split at the space has at least two pieces.\<close>

definition convertBody :: "platform \<Rightarrow> string \<Rightarrow> string \<Rightarrow> string \<Rightarrow> jsException + string" where
  "convertBody pf dateStr fromTimezone toTimezone =
     (let pieces = split dateStr (CHR '' '');
          datePart = pieces ! 0;
          timePart = pieces ! 1;
          ymd = map (pf_Number pf) (split datePart (CHR ''-''));
          year = elementAt ymd 0; month = elementAt ymd 1; day = elementAt ymd 2;
          hm = map (pf_Number pf) (split timePart (CHR '':''));
          hour = elementAt hm 0; minute = elementAt hm 1;
          refDate = pf_newDate pf (pf_DateUTC pf year (jsArith (-) month (jsNum 1)) day hour minute)
      in case pf_formatToParts pf fromTimezone refDate of
           Inl e \<Rightarrow> Inl e
         | Inr sourceDisplay \<Rightarrow>
             (let sourceHour = getPartValue pf sourceDisplay ''hour'';
                  sourceMinute = getPartValue pf sourceDisplay ''minute'';
                  sourceDay = getPartValue pf sourceDisplay ''day'';
                  wantedMinutes =
                    jsArith (+) (jsArith (+) (jsArith (*) hour (jsNum 60)) minute)
                      (jsArith (*) (jsArith (*) day (jsNum 24)) (jsNum 60));
                  sourceMinutes =
                    jsArith (+) (jsArith (+) (jsArith (*) sourceHour (jsNum 60)) sourceMinute)
                      (jsArith (*) (jsArith (*) sourceDay (jsNum 24)) (jsNum 60));
                  diffMinutes = jsArith (-) wantedMinutes sourceMinutes;
                  actualUtcTime = jsArith (+) refDate (jsArith (*) diffMinutes (jsNum 60000));
                  actualUtcDate = pf_newDate pf actualUtcTime
              in case pf_formatToParts pf toTimezone actualUtcDate of
                   Inl e \<Rightarrow> Inl e
                 | Inr targetDisplay \<Rightarrow>
                     (let targetYear = getPartValue pf targetDisplay ''year'';
                          targetMonth = getPartValue pf targetDisplay ''month'';
                          targetDay = getPartValue pf targetDisplay ''day'';
                          targetHour0 = getPartValue pf targetDisplay ''hour'';
                          targetMinute = getPartValue pf targetDisplay ''minute'';
                          targetHour = (if targetHour0 = jsNum 24 then jsNum 0 else targetHour0);
                          pad = (\<lambda>n. padStart2 (pf_toString pf n))
                      in Inr (pf_toString pf targetYear @ ''-'' @ pad targetMonth @ ''-''
                              @ pad targetDay @ '' '' @ pad targetHour @ '':''
                              @ pad targetMinute))))"

definition convertTimezone :: "platform \<Rightarrow> string \<Rightarrow> string \<Rightarrow> string \<Rightarrow> string" where
  "convertTimezone pf dateStr fromTimezone toTimezone =
     (if fromTimezone = toTimezone then dateStr
      else if \<not> hasTime dateStr then dateStr
      else (case convertBody pf dateStr fromTimezone toTimezone of
              Inr converted \<Rightarrow> converted
            | Inl e \<Rightarrow> dateStr))"

text \<open>A platform without locale data, on which every formatting throws.\<close>

definition barePlatform :: platform where
  "barePlatform =
     \<lparr> pf_Number = (\<lambda>s. None), pf_parseInt = (\<lambda>s. None), pf_toString = (\<lambda>n. ''NaN''),
       pf_DateUTC = (\<lambda>y m d h mi. None), pf_newDate = (\<lambda>t. t),
       pf_formatToParts = (\<lambda>tz t. Inl RangeError) \<rparr>"

section \<open>Market hours (components/MarketStatus.tsx)\<close>

text \<open>
  \<^verbatim>\<open>calculateTimeInfo\<close> reads the clock and renders it in the time zone of the exchange.
  What the platform returns for the current instant is the input \<open>ExchangeClock\<close>: the
  rendered exchange time with its hour and minute as \<^verbatim>\<open>parseInt\<close> reads them, the
  weekday of \<^verbatim>\<open>getDay()\<close> (0 is Sunday) and the three formatted local times.
\<close>

record ExchangeConfig =
  name :: string
  timezone :: string
  openHour :: int
  openMinute :: int
  closeHour :: int
  closeMinute :: int
  tradingDays :: "nat list"

record ExchangeClock =
  exchangeTimeStr :: string
  exchangeHour :: int
  exchangeMinute :: int
  exchangeDayOfWeek :: nat
  localTimeStr :: string
  marketOpenLocalStr :: string
  marketCloseLocalStr :: string

record TimeInfo =
  localTime :: string
  exchangeTime :: string
  marketOpenLocal :: string
  marketOpenExchange :: string
  marketCloseLocal :: string
  marketCloseExchange :: string
  isOpen :: bool
  isTradingDay :: bool
  countdown :: string
  countdownLabel :: string
  exchangeName :: string

definition formatCountdown :: "int \<Rightarrow> string" where
  "formatCountdown totalMinutes =
     (let hours = totalMinutes div 60;
          minutes = jsRem totalMinutes 60
      in if hours \<ge> 24 then
           (let days = hours div 24;
                remainingHours = jsRem hours 24
            in intToString days @ ''d '' @ intToString remainingHours @ ''h ''
               @ intToString minutes @ ''m'')
         else intToString hours @ ''h '' @ intToString minutes @ ''m'')"

text \<open>
  The loop \<^verbatim>\<open>while (!config.tradingDays.includes(nextDay)) { daysUntilOpen++; nextDay = (nextDay + 1) % 7; }\<close>.
  It has no bound of its own, so a run that never ends is the value \<open>None\<close>.
\<close>

partial_function (option) scanNextTradingDay :: "nat list \<Rightarrow> nat \<Rightarrow> nat \<Rightarrow> nat option" where
  "scanNextTradingDay days daysUntilOpen nextDay =
     (if nextDay \<notin> set days
      then scanNextTradingDay days (daysUntilOpen + 1) ((nextDay + 1) mod 7)
      else Some daysUntilOpen)"

text \<open>The two branches that scan forward (not a trading day; after the close) compute
  the same total.\<close>

definition untilNextOpen :: "ExchangeConfig \<Rightarrow> ExchangeClock \<Rightarrow> int option" where
  "untilNextOpen config clock =
     (case scanNextTradingDay (tradingDays config) 1 ((exchangeDayOfWeek clock + 1) mod 7) of
        None \<Rightarrow> None
      | Some daysUntilOpen \<Rightarrow>
          (let currentExchangeMinutes = exchangeHour clock * 60 + exchangeMinute clock;
               openMinutes = openHour config * 60 + openMinute config;
               minutesUntilMidnight = 24 * 60 - currentExchangeMinutes
           in Some (minutesUntilMidnight + (int daysUntilOpen - 1) * 24 * 60 + openMinutes)))"

definition calculateTimeInfo :: "ExchangeConfig \<Rightarrow> ExchangeClock \<Rightarrow> TimeInfo option" where
  "calculateTimeInfo config clock =
     (let isTradingDay = exchangeDayOfWeek clock \<in> set (tradingDays config);
          marketOpenExchangeStr =
            padStart2 (intToString (openHour config)) @ '':'' @ padStart2 (intToString (openMinute config));
          marketCloseExchangeStr =
            padStart2 (intToString (closeHour config)) @ '':'' @ padStart2 (intToString (closeMinute config));
          currentExchangeMinutes = exchangeHour clock * 60 + exchangeMinute clock;
          openMinutes = openHour config * 60 + openMinute config;
          closeMinutes = closeHour config * 60 + closeMinute config;
          isOpen = (isTradingDay \<and> currentExchangeMinutes \<ge> openMinutes
                    \<and> currentExchangeMinutes < closeMinutes);
          counted =
            (if \<not> isTradingDay then
               (case untilNextOpen config clock of
                  None \<Rightarrow> None
                | Some totalMinutes \<Rightarrow> Some (formatCountdown totalMinutes, ''until market opens''))
             else if isOpen then
               Some (formatCountdown (closeMinutes - currentExchangeMinutes), ''until market closes'')
             else if currentExchangeMinutes < openMinutes then
               Some (formatCountdown (openMinutes - currentExchangeMinutes), ''until market opens'')
             else
               (case untilNextOpen config clock of
                  None \<Rightarrow> None
                | Some totalMinutes \<Rightarrow> Some (formatCountdown totalMinutes, ''until market opens'')))
      in case counted of
           None \<Rightarrow> None
         | Some (countdownStr, label) \<Rightarrow>
             Some \<lparr> localTime = localTimeStr clock,
                    exchangeTime = exchangeTimeStr clock,
                    marketOpenLocal = marketOpenLocalStr clock,
                    marketOpenExchange = marketOpenExchangeStr,
                    marketCloseLocal = marketCloseLocalStr clock,
                    marketCloseExchange = marketCloseExchangeStr,
                    isOpen = isOpen,
                    isTradingDay = isTradingDay,
                    countdown = countdownStr,
                    countdownLabel = label,
                    exchangeName = name config \<rparr>)"

text \<open>The entry \<^verbatim>\<open>'NYQ'\<close> of \<^verbatim>\<open>EXCHANGE_CONFIG\<close>, and a Saturday at noon.\<close>

definition NYQ :: ExchangeConfig where
  "NYQ = \<lparr> name = ''NYSE'', timezone = ''America/New_York'', openHour = 9, openMinute = 30,
           closeHour = 16, closeMinute = 0, tradingDays = [1, 2, 3, 4, 5] \<rparr>"

definition saturdayNoon :: ExchangeClock where
  "saturdayNoon = \<lparr> exchangeTimeStr = ''12:00'', exchangeHour = 12, exchangeMinute = 0,
       exchangeDayOfWeek = 6, localTimeStr = ''12:00'', marketOpenLocalStr = ''09:30'',
       marketCloseLocalStr = ''16:00'' \<rparr>"

text \<open>
  The two tables of the component, \<^verbatim>\<open>EXCHANGE_CONFIG\<close> and the table of
  \<^verbatim>\<open>getConfigFromTimezone\<close>, and the lookup \<^verbatim>\<open>getExchangeConfig\<close>: by exchange code
  first, by time zone otherwise. A key is looked up among the entries of the table; an
  absent or empty string is falsy. These are the only profiles the component passes to
  \<^const>\<open>calculateTimeInfo\<close>.
\<close>

definition EXCHANGE_CONFIG :: "(string \<times> ExchangeConfig) list" where
  "EXCHANGE_CONFIG =
    [(''NMS'', \<lparr> name = ''NASDAQ'', timezone = ''America/New_York'', openHour = 9, openMinute = 30,
        closeHour = 16, closeMinute = 0, tradingDays = [1, 2, 3, 4, 5] \<rparr>),
     (''NGM'', \<lparr> name = ''NASDAQ'', timezone = ''America/New_York'', openHour = 9, openMinute = 30,
        closeHour = 16, closeMinute = 0, tradingDays = [1, 2, 3, 4, 5] \<rparr>),
     (''NCM'', \<lparr> name = ''NASDAQ'', timezone = ''America/New_York'', openHour = 9, openMinute = 30,
        closeHour = 16, closeMinute = 0, tradingDays = [1, 2, 3, 4, 5] \<rparr>),
     (''NYQ'', \<lparr> name = ''NYSE'', timezone = ''America/New_York'', openHour = 9, openMinute = 30,
        closeHour = 16, closeMinute = 0, tradingDays = [1, 2, 3, 4, 5] \<rparr>),
     (''PCX'', \<lparr> name = ''NYSE Arca'', timezone = ''America/New_York'', openHour = 9, openMinute = 30,
        closeHour = 16, closeMinute = 0, tradingDays = [1, 2, 3, 4, 5] \<rparr>),
     (''BTS'', \<lparr> name = ''NYSE'', timezone = ''America/New_York'', openHour = 9, openMinute = 30,
        closeHour = 16, closeMinute = 0, tradingDays = [1, 2, 3, 4, 5] \<rparr>),
     (''ASE'', \<lparr> name = ''NYSE American'', timezone = ''America/New_York'', openHour = 9, openMinute = 30,
        closeHour = 16, closeMinute = 0, tradingDays = [1, 2, 3, 4, 5] \<rparr>),
     (''HKG'', \<lparr> name = ''HKEX'', timezone = ''Asia/Hong_Kong'', openHour = 9, openMinute = 30,
        closeHour = 16, closeMinute = 0, tradingDays = [1, 2, 3, 4, 5] \<rparr>),
     (''TYO'', \<lparr> name = ''TSE'', timezone = ''Asia/Tokyo'', openHour = 9, openMinute = 0,
        closeHour = 15, closeMinute = 0, tradingDays = [1, 2, 3, 4, 5] \<rparr>),
     (''JPX'', \<lparr> name = ''TSE'', timezone = ''Asia/Tokyo'', openHour = 9, openMinute = 0,
        closeHour = 15, closeMinute = 0, tradingDays = [1, 2, 3, 4, 5] \<rparr>),
     (''LON'', \<lparr> name = ''LSE'', timezone = ''Europe/London'', openHour = 8, openMinute = 0,
        closeHour = 16, closeMinute = 30, tradingDays = [1, 2, 3, 4, 5] \<rparr>),
     (''LSE'', \<lparr> name = ''LSE'', timezone = ''Europe/London'', openHour = 8, openMinute = 0,
        closeHour = 16, closeMinute = 30, tradingDays = [1, 2, 3, 4, 5] \<rparr>),
     (''FRA'', \<lparr> name = ''Frankfurt'', timezone = ''Europe/Berlin'', openHour = 9, openMinute = 0,
        closeHour = 17, closeMinute = 30, tradingDays = [1, 2, 3, 4, 5] \<rparr>),
     (''GER'', \<lparr> name = ''Xetra'', timezone = ''Europe/Berlin'', openHour = 9, openMinute = 0,
        closeHour = 17, closeMinute = 30, tradingDays = [1, 2, 3, 4, 5] \<rparr>),
     (''PAR'', \<lparr> name = ''Euronext Paris'', timezone = ''Europe/Paris'', openHour = 9, openMinute = 0,
        closeHour = 17, closeMinute = 30, tradingDays = [1, 2, 3, 4, 5] \<rparr>),
     (''SHH'', \<lparr> name = ''SSE'', timezone = ''Asia/Shanghai'', openHour = 9, openMinute = 30,
        closeHour = 15, closeMinute = 0, tradingDays = [1, 2, 3, 4, 5] \<rparr>),
     (''SHA'', \<lparr> name = ''SSE'', timezone = ''Asia/Shanghai'', openHour = 9, openMinute = 30,
        closeHour = 15, closeMinute = 0, tradingDays = [1, 2, 3, 4, 5] \<rparr>),
     (''SHZ'', \<lparr> name = ''SZSE'', timezone = ''Asia/Shenzhen'', openHour = 9, openMinute = 30,
        closeHour = 15, closeMinute = 0, tradingDays = [1, 2, 3, 4, 5] \<rparr>),
     (''TOR'', \<lparr> name = ''TSX'', timezone = ''America/Toronto'', openHour = 9, openMinute = 30,
        closeHour = 16, closeMinute = 0, tradingDays = [1, 2, 3, 4, 5] \<rparr>),
     (''TSX'', \<lparr> name = ''TSX'', timezone = ''America/Toronto'', openHour = 9, openMinute = 30,
        closeHour = 16, closeMinute = 0, tradingDays = [1, 2, 3, 4, 5] \<rparr>),
     (''ASX'', \<lparr> name = ''ASX'', timezone = ''Australia/Sydney'', openHour = 10, openMinute = 0,
        closeHour = 16, closeMinute = 0, tradingDays = [1, 2, 3, 4, 5] \<rparr>),
     (''AX'', \<lparr> name = ''ASX'', timezone = ''Australia/Sydney'', openHour = 10, openMinute = 0,
        closeHour = 16, closeMinute = 0, tradingDays = [1, 2, 3, 4, 5] \<rparr>),
     (''NSI'', \<lparr> name = ''NSE India'', timezone = ''Asia/Kolkata'', openHour = 9, openMinute = 15,
        closeHour = 15, closeMinute = 30, tradingDays = [1, 2, 3, 4, 5] \<rparr>),
     (''BOM'', \<lparr> name = ''BSE India'', timezone = ''Asia/Kolkata'', openHour = 9, openMinute = 15,
        closeHour = 15, closeMinute = 30, tradingDays = [1, 2, 3, 4, 5] \<rparr>),
     (''KSC'', \<lparr> name = ''KRX'', timezone = ''Asia/Seoul'', openHour = 9, openMinute = 0,
        closeHour = 15, closeMinute = 30, tradingDays = [1, 2, 3, 4, 5] \<rparr>),
     (''KOE'', \<lparr> name = ''KRX'', timezone = ''Asia/Seoul'', openHour = 9, openMinute = 0,
        closeHour = 15, closeMinute = 30, tradingDays = [1, 2, 3, 4, 5] \<rparr>),
     (''SES'', \<lparr> name = ''SGX'', timezone = ''Asia/Singapore'', openHour = 9, openMinute = 0,
        closeHour = 17, closeMinute = 0, tradingDays = [1, 2, 3, 4, 5] \<rparr>),
     (''TAI'', \<lparr> name = ''TWSE'', timezone = ''Asia/Taipei'', openHour = 9, openMinute = 0,
        closeHour = 13, closeMinute = 30, tradingDays = [1, 2, 3, 4, 5] \<rparr>),
     (''TWO'', \<lparr> name = ''TPEx'', timezone = ''Asia/Taipei'', openHour = 9, openMinute = 0,
        closeHour = 13, closeMinute = 30, tradingDays = [1, 2, 3, 4, 5] \<rparr>)]"

definition timezoneToConfig :: "(string \<times> ExchangeConfig) list" where
  "timezoneToConfig =
    [(''America/New_York'', \<lparr> name = ''US Market'', timezone = ''America/New_York'', openHour = 9, openMinute = 30,
        closeHour = 16, closeMinute = 0, tradingDays = [1, 2, 3, 4, 5] \<rparr>),
     (''Asia/Hong_Kong'', \<lparr> name = ''HKEX'', timezone = ''Asia/Hong_Kong'', openHour = 9, openMinute = 30,
        closeHour = 16, closeMinute = 0, tradingDays = [1, 2, 3, 4, 5] \<rparr>),
     (''Asia/Tokyo'', \<lparr> name = ''TSE'', timezone = ''Asia/Tokyo'', openHour = 9, openMinute = 0,
        closeHour = 15, closeMinute = 0, tradingDays = [1, 2, 3, 4, 5] \<rparr>),
     (''Europe/London'', \<lparr> name = ''LSE'', timezone = ''Europe/London'', openHour = 8, openMinute = 0,
        closeHour = 16, closeMinute = 30, tradingDays = [1, 2, 3, 4, 5] \<rparr>),
     (''Europe/Berlin'', \<lparr> name = ''Xetra'', timezone = ''Europe/Berlin'', openHour = 9, openMinute = 0,
        closeHour = 17, closeMinute = 30, tradingDays = [1, 2, 3, 4, 5] \<rparr>),
     (''Europe/Paris'', \<lparr> name = ''Euronext'', timezone = ''Europe/Paris'', openHour = 9, openMinute = 0,
        closeHour = 17, closeMinute = 30, tradingDays = [1, 2, 3, 4, 5] \<rparr>),
     (''Asia/Shanghai'', \<lparr> name = ''SSE'', timezone = ''Asia/Shanghai'', openHour = 9, openMinute = 30,
        closeHour = 15, closeMinute = 0, tradingDays = [1, 2, 3, 4, 5] \<rparr>),
     (''America/Toronto'', \<lparr> name = ''TSX'', timezone = ''America/Toronto'', openHour = 9, openMinute = 30,
        closeHour = 16, closeMinute = 0, tradingDays = [1, 2, 3, 4, 5] \<rparr>),
     (''Australia/Sydney'', \<lparr> name = ''ASX'', timezone = ''Australia/Sydney'', openHour = 10, openMinute = 0,
        closeHour = 16, closeMinute = 0, tradingDays = [1, 2, 3, 4, 5] \<rparr>),
     (''Asia/Kolkata'', \<lparr> name = ''NSE India'', timezone = ''Asia/Kolkata'', openHour = 9, openMinute = 15,
        closeHour = 15, closeMinute = 30, tradingDays = [1, 2, 3, 4, 5] \<rparr>),
     (''Asia/Seoul'', \<lparr> name = ''KRX'', timezone = ''Asia/Seoul'', openHour = 9, openMinute = 0,
        closeHour = 15, closeMinute = 30, tradingDays = [1, 2, 3, 4, 5] \<rparr>),
     (''Asia/Singapore'', \<lparr> name = ''SGX'', timezone = ''Asia/Singapore'', openHour = 9, openMinute = 0,
        closeHour = 17, closeMinute = 0, tradingDays = [1, 2, 3, 4, 5] \<rparr>),
     (''Asia/Taipei'', \<lparr> name = ''TWSE'', timezone = ''Asia/Taipei'', openHour = 9, openMinute = 0,
        closeHour = 13, closeMinute = 30, tradingDays = [1, 2, 3, 4, 5] \<rparr>)]"

definition getConfigFromTimezone :: "string \<Rightarrow> ExchangeConfig option" where
  "getConfigFromTimezone tz = map_of timezoneToConfig tz"

definition getExchangeConfig :: "string option \<Rightarrow> string option \<Rightarrow> ExchangeConfig option" where
  "getExchangeConfig exchange tz =
     (let byTimezone =
            (case tz of
               None \<Rightarrow> None
             | Some z \<Rightarrow> if z \<noteq> [] then getConfigFromTimezone z else None)
      in case exchange of
           None \<Rightarrow> byTimezone
         | Some ex \<Rightarrow>
             if ex \<noteq> [] \<and> map_of EXCHANGE_CONFIG ex \<noteq> None then map_of EXCHANGE_CONFIG ex
             else byTimezone)"

section \<open>Rate-limit retry countdown (hooks/useRateLimitRetry.ts)\<close>

text \<open>
  The state of the hook: the two React states, the two refs, and what the hook has
  registered with the browser: the interval timers that are active (by handle), the
  zero-delay timeouts that are queued, and how often the retry callback has run.
  \<open>effectDeps\<close> is the value of \<^verbatim>\<open>isRateLimited\<close> at the last run of the countdown effect
  (its dependency array is \<^verbatim>\<open>[isRateLimited]\<close>); \<open>None\<close> before the mount. Handles are
  positive, so \<^verbatim>\<open>if (intervalRef.current)\<close> tests for a handle.
\<close>

record RetryHook =
  isRateLimited :: bool
  secondsRemaining :: int
  intervalRef :: "nat option"
  isCountingDown :: bool
  effectDeps :: "bool option"
  activeIntervals :: "nat list"
  nextTimerId :: nat
  pendingTimeouts :: nat
  retryCalls :: nat

definition DEFAULT_RETRY_DELAY_SECONDS :: real where
  "DEFAULT_RETRY_DELAY_SECONDS = 60"

definition useRateLimitRetry_initial :: RetryHook where
  "useRateLimitRetry_initial =
     \<lparr> isRateLimited = False, secondsRemaining = 0, intervalRef = None,
       isCountingDown = False, effectDeps = None, activeIntervals = [], nextTimerId = 1,
       pendingTimeouts = 0, retryCalls = 0 \<rparr>"

definition clearIntervalRef :: "RetryHook \<Rightarrow> RetryHook" where
  "clearIntervalRef s =
     (case intervalRef s of
        None \<Rightarrow> s
      | Some h \<Rightarrow> s \<lparr> activeIntervals := removeAll h (activeIntervals s), intervalRef := None \<rparr>)"

definition startRetryCountdown :: "real \<Rightarrow> real option \<Rightarrow> RetryHook \<Rightarrow> RetryHook" where
  "startRetryCountdown defaultRetryDelaySeconds waitTimeSeconds s =
     (let s1 = (clearIntervalRef s) \<lparr> isCountingDown := False \<rparr>;
          delaySeconds = (case waitTimeSeconds of Some w \<Rightarrow> w | None \<Rightarrow> defaultRetryDelaySeconds);
          totalDelay = \<lceil>delaySeconds\<rceil> + 1
      in s1 \<lparr> secondsRemaining := totalDelay, isRateLimited := True \<rparr>)"

text \<open>The updater the interval callback passes to \<^verbatim>\<open>setSecondsRemaining\<close>.\<close>

definition countdownUpdater :: "RetryHook \<Rightarrow> RetryHook" where
  "countdownUpdater s =
     (let next = secondsRemaining s - 1 in
      if next \<le> 0 then
        (let s1 = s \<lparr> isCountingDown := False, isRateLimited := False \<rparr>;
             s2 = clearIntervalRef s1;
             s3 = s2 \<lparr> pendingTimeouts := pendingTimeouts s2 + 1 \<rparr>
         in s3 \<lparr> secondsRemaining := 0 \<rparr>)
      else s \<lparr> secondsRemaining := next \<rparr>)"

text \<open>
  The countdown effect. React runs an effect after a commit when a dependency differs
  from its value at the previous run: first the cleanup returned by that previous run,
  which closes over the \<^verbatim>\<open>isRateLimited\<close> of its render, then the body.
\<close>

definition effectCleanup :: "bool \<Rightarrow> RetryHook \<Rightarrow> RetryHook" where
  "effectCleanup isRateLimited_then s =
     (if \<not> isRateLimited_then \<and> intervalRef s \<noteq> None
      then (clearIntervalRef s) \<lparr> isCountingDown := False \<rparr>
      else s)"

definition effectBody :: "RetryHook \<Rightarrow> RetryHook" where
  "effectBody s =
     (if isRateLimited s \<and> secondsRemaining s > 0 \<and> \<not> isCountingDown s then
        s \<lparr> isCountingDown := True,
            intervalRef := Some (nextTimerId s),
            activeIntervals := activeIntervals s @ [nextTimerId s],
            nextTimerId := nextTimerId s + 1 \<rparr>
      else s)"

definition commitEffects :: "RetryHook \<Rightarrow> RetryHook" where
  "commitEffects s =
     (if effectDeps s = Some (isRateLimited s) then s
      else
        (let s1 = (case effectDeps s of
                     None \<Rightarrow> s
                   | Some isRateLimited_then \<Rightarrow> effectCleanup isRateLimited_then s);
             s2 = effectBody s1
         in s2 \<lparr> effectDeps := Some (isRateLimited s) \<rparr>))"

text \<open>One second passes: every active interval fires, and the resulting render is
  committed. Then the next scheduling turn, in which the queued timeouts run.\<close>

definition intervalFires :: "nat \<Rightarrow> RetryHook \<Rightarrow> RetryHook" where
  "intervalFires h s = (if h \<in> set (activeIntervals s) then countdownUpdater s else s)"

definition tick :: "RetryHook \<Rightarrow> RetryHook" where
  "tick s = commitEffects (fold intervalFires (activeIntervals s) s)"

definition runTimeouts :: "RetryHook \<Rightarrow> RetryHook" where
  "runTimeouts s = s \<lparr> retryCalls := retryCalls s + pendingTimeouts s, pendingTimeouts := 0 \<rparr>"

definition cancelRetry :: "RetryHook \<Rightarrow> RetryHook" where
  "cancelRetry s =
     clearIntervalRef (s \<lparr> isCountingDown := False, isRateLimited := False, secondsRemaining := 0 \<rparr>)"

definition resetRateLimit :: "RetryHook \<Rightarrow> RetryHook" where
  "resetRateLimit s =
     clearIntervalRef (s \<lparr> isCountingDown := False, isRateLimited := False, secondsRemaining := 0 \<rparr>)"

text \<open>
  The mounted hook; a first rate-limit signal with a wait of five seconds; a second one
  two seconds later, while the countdown of the first is running (the history request
  and the details request of the page fail independently, and each failure calls
  \<^verbatim>\<open>startRetryCountdown\<close>).
\<close>

definition mounted :: RetryHook where
  "mounted = commitEffects useRateLimitRetry_initial"

definition firstTrigger :: RetryHook where
  "firstTrigger = commitEffects (startRetryCountdown DEFAULT_RETRY_DELAY_SECONDS (Some 5) mounted)"

definition secondTrigger :: RetryHook where
  "secondTrigger = commitEffects (startRetryCountdown DEFAULT_RETRY_DELAY_SECONDS (Some 5) (tick (tick firstTrigger)))"

text \<open>The two states of the controller, as predicates on the state of the hook.\<close>

definition idle :: "RetryHook \<Rightarrow> bool" where
  "idle s \<longleftrightarrow> \<not> isRateLimited s \<and> intervalRef s = None \<and> activeIntervals s = []
            \<and> \<not> isCountingDown s \<and> effectDeps s = Some False"

definition counting :: "RetryHook \<Rightarrow> bool" where
  "counting s \<longleftrightarrow> isRateLimited s \<and> intervalRef s = Some (nextTimerId s - 1)
            \<and> activeIntervals s = [nextTimerId s - 1]
            \<and> isCountingDown s \<and> effectDeps s = Some True"

section \<open>Auto-refresh countdown (hooks/useAutoRefreshCountdown.ts)\<close>

text \<open>
  The props of a render, and the state of the hook: the two React states, the ref, the
  active interval timers (each with the \<^verbatim>\<open>isLoading\<close> its callback closes over), the
  number of calls of the refresh callback, and the dependencies of the two effects at
  their last run (\<^verbatim>\<open>[enabled, isPaused, isLoading]\<close> and \<^verbatim>\<open>[isLoading, isRefreshing]\<close>).
\<close>

definition AUTO_REFRESH_INTERVAL :: int where
  "AUTO_REFRESH_INTERVAL = 3 * 60 * 1000"

record RefreshProps =
  enabled :: bool
  isLoading :: bool
  isPaused :: bool

record AutoRefresh =
  refreshSecondsRemaining :: int
  isRefreshing :: bool
  refreshIntervalRef :: "nat option"
  refreshIntervals :: "(nat \<times> bool) list"
  refreshNextTimerId :: nat
  refreshCalls :: nat
  countdownDeps :: "(bool \<times> bool \<times> bool) option"
  resetDeps :: "(bool \<times> bool) option"

definition useAutoRefreshCountdown_initial :: AutoRefresh where
  "useAutoRefreshCountdown_initial =
     \<lparr> refreshSecondsRemaining = AUTO_REFRESH_INTERVAL div 1000, isRefreshing = False,
       refreshIntervalRef = None, refreshIntervals = [], refreshNextTimerId = 1,
       refreshCalls = 0, countdownDeps = None, resetDeps = None \<rparr>"

definition resetCountdown :: "AutoRefresh \<Rightarrow> AutoRefresh" where
  "resetCountdown s =
     s \<lparr> refreshSecondsRemaining := AUTO_REFRESH_INTERVAL div 1000, isRefreshing := False \<rparr>"

definition clearRefreshInterval :: "AutoRefresh \<Rightarrow> AutoRefresh" where
  "clearRefreshInterval s =
     (case refreshIntervalRef s of
        None \<Rightarrow> s
      | Some h \<Rightarrow> s \<lparr> refreshIntervals := filter (\<lambda>t. fst t \<noteq> h) (refreshIntervals s),
                       refreshIntervalRef := None \<rparr>)"

text \<open>The main countdown effect (body), the reset effect, and a commit: an effect whose
  dependencies changed runs, the main one after the cleanup of its previous run.\<close>

definition countdownEffect :: "RefreshProps \<Rightarrow> AutoRefresh \<Rightarrow> AutoRefresh" where
  "countdownEffect props s =
     (let s1 = clearRefreshInterval s in
      if \<not> enabled props \<or> isPaused props then s1
      else s1 \<lparr> refreshIntervalRef := Some (refreshNextTimerId s1),
                refreshIntervals := refreshIntervals s1 @ [(refreshNextTimerId s1, isLoading props)],
                refreshNextTimerId := refreshNextTimerId s1 + 1 \<rparr>)"

definition resetEffect :: "RefreshProps \<Rightarrow> AutoRefresh \<Rightarrow> AutoRefresh" where
  "resetEffect props s = (if \<not> isLoading props \<and> isRefreshing s then resetCountdown s else s)"

definition commitRefresh :: "RefreshProps \<Rightarrow> AutoRefresh \<Rightarrow> AutoRefresh" where
  "commitRefresh props s =
     (let deps1 = (enabled props, isPaused props, isLoading props);
          deps2 = (isLoading props, isRefreshing s);
          s1 = (if countdownDeps s = Some deps1 then s
                else (countdownEffect props
                        (if countdownDeps s = None then s else clearRefreshInterval s))
                     \<lparr> countdownDeps := Some deps1 \<rparr>);
          s2 = (if resetDeps s1 = Some deps2 then s1
                else (resetEffect props s1) \<lparr> resetDeps := Some deps2 \<rparr>)
      in s2)"

text \<open>A render with new props: the commit, and the commit of the render that a state
  change in the reset effect causes.\<close>

definition render :: "RefreshProps \<Rightarrow> AutoRefresh \<Rightarrow> AutoRefresh" where
  "render props s = commitRefresh props (commitRefresh props s)"

definition refreshUpdater :: "bool \<Rightarrow> AutoRefresh \<Rightarrow> AutoRefresh" where
  "refreshUpdater isLoading_then s =
     (if refreshSecondsRemaining s \<le> 1 then
        (if \<not> isLoading_then
         then s \<lparr> isRefreshing := True, refreshCalls := refreshCalls s + 1 \<rparr>
         else s) \<lparr> refreshSecondsRemaining := 0 \<rparr>
      else s \<lparr> refreshSecondsRemaining := refreshSecondsRemaining s - 1 \<rparr>)"

definition refreshIntervalFires :: "nat \<times> bool \<Rightarrow> AutoRefresh \<Rightarrow> AutoRefresh" where
  "refreshIntervalFires t s = (if t \<in> set (refreshIntervals s) then refreshUpdater (snd t) s else s)"

definition refreshTick :: "RefreshProps \<Rightarrow> AutoRefresh \<Rightarrow> AutoRefresh" where
  "refreshTick props s = render props (fold refreshIntervalFires (refreshIntervals s) s)"

text \<open>Props of a running and of a paused scheduler, and the hook three seconds after
  the mount.\<close>

definition running :: RefreshProps where
  "running = \<lparr> enabled = True, isLoading = False, isPaused = False \<rparr>"

definition paused :: RefreshProps where
  "paused = \<lparr> enabled = True, isLoading = False, isPaused = True \<rparr>"

definition afterThreeTicks :: AutoRefresh where
  "afterThreeTicks = refreshTick running (refreshTick running (refreshTick running
      (render running useAutoRefreshCountdown_initial)))"

text \<open>At most one timer: the one the ref holds.\<close>

definition oneTimer :: "AutoRefresh \<Rightarrow> bool" where
  "oneTimer s =
     (case refreshIntervalRef s of
        None \<Rightarrow> refreshIntervals s = []
      | Some h \<Rightarrow> (\<exists>l. refreshIntervals s = [(h, l)]))"

section \<open>Properties of the candle merge\<close>

lemma find_app: "find P (xs @ ys) = (case find P xs of Some y \<Rightarrow> Some y | None \<Rightarrow> find P ys)"
  by (induction xs) auto

lemma last_at_Cons: "last_at t (p # ps) = (case last_at t ps of Some q \<Rightarrow> Some q | None \<Rightarrow> if timestamp p = t then Some p else None)"
  by (simp add: last_at_def find_app split: option.splits)

lemma last_at_append: "last_at t (xs @ ys) = (case last_at t ys of Some q \<Rightarrow> Some q | None \<Rightarrow> last_at t xs)"
  by (simp add: last_at_def find_app split: option.splits)

lemma setAll_lookup:
  "map_of (setAll ps m) t = (case last_at t ps of Some p \<Rightarrow> Some p | None \<Rightarrow> map_of m t)"
proof (induction ps arbitrary: m)
  case Nil
  show ?case by (simp add: setAll_def last_at_def)
next
  case (Cons p ps)
  have "setAll (p # ps) m = setAll ps (Map_set (timestamp p) p m)"
    by (simp add: setAll_def)
  then show ?case
    using Cons.IH [of "Map_set (timestamp p) p m"]
    by (simp add: last_at_Cons Map_set_def update_conv' split: option.splits)
qed

lemma setAll_distinct: "distinct (map fst m) \<Longrightarrow> distinct (map fst (setAll ps m))"
  by (induction ps arbitrary: m) (simp_all add: setAll_def Map_set_def distinct_update)

lemma Map_set_keyed:
  "\<forall>e \<in> set m. fst e = timestamp (snd e) \<Longrightarrow> \<forall>e \<in> set (Map_set (timestamp p) p m). fst e = timestamp (snd e)"
  unfolding Map_set_def by (induction m) auto

lemma setAll_keyed:
  "\<forall>e \<in> set m. fst e = timestamp (snd e) \<Longrightarrow> \<forall>e \<in> set (setAll ps m). fst e = timestamp (snd e)"
proof (induction ps arbitrary: m)
  case Nil
  then show ?case by (simp add: setAll_def)
next
  case (Cons p ps)
  have "setAll (p # ps) m = setAll ps (Map_set (timestamp p) p m)"
    by (simp add: setAll_def)
  then show ?case using Cons.IH [OF Map_set_keyed [OF Cons.prems]] by simp
qed

lemma ascending_distinct: "ascending ps \<Longrightarrow> distinct (map timestamp ps)"
  by (simp add: ascending_def strict_sorted_iff)

lemma at_ts_distinct:
  "distinct (map timestamp ps) \<Longrightarrow> at_ts t ps = Some p \<longleftrightarrow> p \<in> set ps \<and> timestamp p = t"
  unfolding at_ts_def by (induction ps) (auto simp: rev_image_eqI)

lemma last_at_distinct:
  "distinct (map timestamp ps) \<Longrightarrow> last_at t ps = at_ts t ps"
proof -
  assume d: "distinct (map timestamp ps)"
  then have d': "distinct (map timestamp (rev ps))" by (simp add: rev_map [symmetric])
  have "last_at t ps = at_ts t (rev ps)" by (simp add: last_at_def at_ts_def)
  moreover have "at_ts t (rev ps) = Some p \<longleftrightarrow> at_ts t ps = Some p" for p
    using at_ts_distinct [OF d] at_ts_distinct [OF d'] by simp
  ultimately show ?thesis
    by (metis option.exhaust)
qed

lemma ascending_unique:
  assumes "ascending xs" "ascending ys" "\<And>t. at_ts t xs = at_ts t ys"
  shows "xs = ys"
proof -
  have dx: "distinct (map timestamp xs)" and dy: "distinct (map timestamp ys)"
    using assms(1,2) by (simp_all add: ascending_distinct)
  have mem: "p \<in> set xs \<longleftrightarrow> p \<in> set ys" for p
    using at_ts_distinct [OF dx, of "timestamp p" p] at_ts_distinct [OF dy, of "timestamp p" p] assms(3)
    by simp
  then have s: "set xs = set ys" by blast
  have "map timestamp xs = map timestamp ys"
    using assms(1,2) s
    by (intro sorted_distinct_set_unique) (simp_all add: ascending_def strict_sorted_iff)
  moreover have "inj_on timestamp (set xs \<union> set ys)"
    using dx s by (simp add: distinct_map)
  ultimately show ?thesis by (simp add: inj_on_map_eq_map)
qed

lemma mergedList_props:
  "ascending (mergedList ps qs)"
  "at_ts t (mergedList ps qs) = (case last_at t qs of Some p \<Rightarrow> Some p | None \<Rightarrow> last_at t ps)"
proof -
  let ?M = "setAll qs (setAll ps [])"
  let ?R = "mergedList ps qs"
  have dM: "distinct (map fst ?M)" by (simp add: setAll_distinct)
  have kM: "\<forall>e \<in> set ?M. fst e = timestamp (snd e)" by (intro setAll_keyed) simp
  then have keys: "map timestamp (Map_values ?M) = map fst ?M"
    by (simp add: Map_values_def)
  have "distinct (map timestamp (Map_values ?M))"
    using dM keys by simp
  then have dR: "distinct (map timestamp ?R)"
    by (simp add: mergedList_def distinct_map)
  have "sorted (map timestamp ?R)" by (simp add: mergedList_def)
  with dR show "ascending ?R" by (simp add: ascending_def strict_sorted_iff)
  have lk: "map_of ?M t = (case last_at t qs of Some p \<Rightarrow> Some p | None \<Rightarrow> last_at t ps)"
    by (simp add: setAll_lookup last_at_def split: option.splits)
  have "at_ts t ?R = Some p \<longleftrightarrow> map_of ?M t = Some p" for p
  proof -
    have "at_ts t ?R = Some p \<longleftrightarrow> p \<in> set ?R \<and> timestamp p = t"
      by (rule at_ts_distinct [OF dR])
    also have "\<dots> \<longleftrightarrow> p \<in> snd ` set ?M \<and> timestamp p = t"
      by (simp add: mergedList_def Map_values_def)
    also have "\<dots> \<longleftrightarrow> (t, p) \<in> set ?M"
      using kM by force
    also have "\<dots> \<longleftrightarrow> map_of ?M t = Some p"
      using dM by simp
    finally show ?thesis .
  qed
  then have "at_ts t ?R = map_of ?M t"
    by (metis option.exhaust)
  with lk show "at_ts t ?R = (case last_at t qs of Some p \<Rightarrow> Some p | None \<Rightarrow> last_at t ps)"
    by simp
qed

lemma historyUpdater_Some:
  "ps \<noteq> [] \<Longrightarrow> historyUpdater (Some ps) cs = Some (mergedList ps (map toPricePoint cs))"
  by (simp add: historyUpdater_def mergedList_def)

lemma last_at_mem: "p \<in> set ps \<Longrightarrow> last_at (timestamp p) ps \<noteq> None"
  by (auto simp: last_at_def find_None_iff)

lemma at_ts_Nil: "at_ts t [] = None"
  by (simp add: at_ts_def)

lemma mergedList_nonempty: "ps \<noteq> [] \<Longrightarrow> mergedList ps qs \<noteq> []"
proof
  assume ne: "ps \<noteq> []" and e: "mergedList ps qs = []"
  then obtain a where a: "a \<in> set ps" by (cases ps) auto
  have "at_ts (timestamp a) (mergedList ps qs) \<noteq> None"
    using last_at_mem [OF a] by (simp add: mergedList_props(2) split: option.splits)
  with e show False by (simp add: at_ts_Nil)
qed

lemma mergedList_absorb: "mergedList (mergedList ps qs) qs = mergedList ps qs"
proof (rule ascending_unique)
  show "ascending (mergedList (mergedList ps qs) qs)" by (rule mergedList_props(1))
  show "ascending (mergedList ps qs)" by (rule mergedList_props(1))
  fix t
  have "last_at t (mergedList ps qs) = at_ts t (mergedList ps qs)"
    by (simp add: last_at_distinct ascending_distinct mergedList_props(1))
  then show "at_ts t (mergedList (mergedList ps qs) qs) = at_ts t (mergedList ps qs)"
    by (simp add: mergedList_props(2) split: option.splits)
qed

lemma mergedList_same: "ascending ps \<Longrightarrow> mergedList ps ps = ps"
proof (rule ascending_unique)
  assume a: "ascending ps"
  show "ascending (mergedList ps ps)" by (rule mergedList_props(1))
  show "ascending ps" by (rule a)
  fix t
  show "at_ts t (mergedList ps ps) = at_ts t ps"
    using a by (simp add: mergedList_props(2) last_at_distinct ascending_distinct split: option.splits)
qed

lemma mergedList_Nil: "ascending ps \<Longrightarrow> mergedList ps [] = ps"
proof (rule ascending_unique)
  assume a: "ascending ps"
  show "ascending (mergedList ps [])" by (rule mergedList_props(1))
  show "ascending ps" by (rule a)
  fix t
  show "at_ts t (mergedList ps []) = at_ts t ps"
    using a by (simp add: mergedList_props(2) last_at_distinct ascending_distinct last_at_def [of t "[]"])
qed

lemma mergeCandles_idem: "mergeCandles (mergeCandles prev B) B = mergeCandles prev B"
proof (cases prev)
  case None
  then show ?thesis by (simp add: mergeCandles_def historyUpdater_def)
next
  case (Some A)
  show ?thesis
  proof (cases "A = [] \<or> B = []")
    case True
    then show ?thesis using Some by (auto simp: mergeCandles_def historyUpdater_def)
  next
    case False
    then have "mergeCandles prev B = Some (mergedList A (map toPricePoint B))"
      using Some by (simp add: mergeCandles_def historyUpdater_Some)
    moreover have "mergeCandles (Some (mergedList A (map toPricePoint B))) B
        = Some (mergedList (mergedList A (map toPricePoint B)) (map toPricePoint B))"
      using False by (simp add: mergeCandles_def historyUpdater_Some mergedList_nonempty)
    ultimately show ?thesis by (simp add: mergedList_absorb)
  qed
qed

lemma mergeCandles_example:
  "mergeCandles (Some (map toPricePoint [exampleCandle 100 10, exampleCandle 200 20]))
       [exampleCandle 200 21, exampleCandle 300 30]
     = Some (map toPricePoint [exampleCandle 100 10, exampleCandle 200 21, exampleCandle 300 30])"
  by (simp add: mergeCandles_def historyUpdater_def setAll_def Map_set_def Map_values_def
      toPricePoint_def exampleCandle_def)

text \<open>
  Claim C1. For every candle series \<open>A\<close> (strictly ascending timestamps) and every
  incoming batch \<open>B\<close>, the merge returns a strictly ascending, timestamp-unique
  series; on every timestamp present on both sides the last incoming candle with that
  timestamp is the element of the result, and for a non-empty \<open>A\<close> the result holds, at
  every timestamp, the last incoming candle with it, or else the element of \<open>A\<close>.
  Merging the empty batch returns \<open>A\<close> (through the guard of the handler and through
  the updater itself), merging \<open>A\<close> into itself returns \<open>A\<close>, merging a batch a second
  time changes nothing, and the scenario of the specification evaluates as stated.
\<close>

theorem mergeCandles_series:
  assumes "ascending A"
  shows "(\<exists>R. mergeCandles (Some A) B = Some R \<and> ascending R
            \<and> distinct (map timestamp R)
            \<and> (\<forall>t p. at_ts t A \<noteq> None \<and> last_at t (map toPricePoint B) = Some p
                   \<longrightarrow> at_ts t R = Some p)
            \<and> (A \<noteq> [] \<longrightarrow> (\<forall>t. at_ts t R =
                   (case last_at t (map toPricePoint B) of Some p \<Rightarrow> Some p | None \<Rightarrow> at_ts t A))))
       \<and> mergeCandles (Some A) [] = Some A
       \<and> historyUpdater (Some A) [] = Some A
       \<and> (map toPricePoint B = A \<longrightarrow> mergeCandles (Some A) B = Some A)
       \<and> mergeCandles (mergeCandles (Some A) B) B = mergeCandles (Some A) B
       \<and> mergeCandles (Some (map toPricePoint [exampleCandle 100 10, exampleCandle 200 20]))
            [exampleCandle 200 21, exampleCandle 300 30]
          = Some (map toPricePoint [exampleCandle 100 10, exampleCandle 200 21, exampleCandle 300 30])"
proof -
  let ?B = "map toPricePoint B"
  have dA: "distinct (map timestamp A)" using assms by (rule ascending_distinct)
  have 1: "\<exists>R. mergeCandles (Some A) B = Some R \<and> ascending R
            \<and> (\<forall>t p. at_ts t A \<noteq> None \<and> last_at t ?B = Some p \<longrightarrow> at_ts t R = Some p)
            \<and> (A \<noteq> [] \<longrightarrow> (\<forall>t. at_ts t R =
                   (case last_at t ?B of Some p \<Rightarrow> Some p | None \<Rightarrow> at_ts t A)))"
  proof (cases "A = [] \<or> B = []")
    case True
    then have "mergeCandles (Some A) B = Some A"
      by (auto simp: mergeCandles_def historyUpdater_def)
    moreover have "last_at t ?B = None" if "B = []" for t
      using that by (simp add: last_at_def)
    ultimately show ?thesis using assms True
      by (auto simp: at_ts_Nil)
  next
    case False
    then have "mergeCandles (Some A) B = Some (mergedList A ?B)"
      by (simp add: mergeCandles_def historyUpdater_Some)
    moreover have "at_ts t (mergedList A ?B) =
        (case last_at t ?B of Some p \<Rightarrow> Some p | None \<Rightarrow> at_ts t A)" for t
      by (simp add: mergedList_props(2) last_at_distinct [OF dA] split: option.splits)
    ultimately show ?thesis
      by (simp add: mergedList_props(1))
  qed
  have 2: "mergeCandles (Some A) [] = Some A"
    by (simp add: mergeCandles_def)
  have 3: "historyUpdater (Some A) [] = Some A"
    using assms by (cases "A = []") (simp_all add: historyUpdater_def mergedList_Nil [unfolded mergedList_def])
  have 4: "map toPricePoint B = A \<longrightarrow> mergeCandles (Some A) B = Some A"
    using assms by (cases "A = []") (auto simp: mergeCandles_def historyUpdater_def mergedList_same [unfolded mergedList_def])
  from 1 obtain R where R: "mergeCandles (Some A) B = Some R" "ascending R"
      "\<forall>t p. at_ts t A \<noteq> None \<and> last_at t ?B = Some p \<longrightarrow> at_ts t R = Some p"
      "A \<noteq> [] \<longrightarrow> (\<forall>t. at_ts t R =
         (case last_at t ?B of Some p \<Rightarrow> Some p | None \<Rightarrow> at_ts t A))"
    by blast
  have "distinct (map timestamp R)" using R(2) by (rule ascending_distinct)
  with R have 5: "\<exists>R. mergeCandles (Some A) B = Some R \<and> ascending R
            \<and> distinct (map timestamp R)
            \<and> (\<forall>t p. at_ts t A \<noteq> None \<and> last_at t ?B = Some p \<longrightarrow> at_ts t R = Some p)
            \<and> (A \<noteq> [] \<longrightarrow> (\<forall>t. at_ts t R =
                   (case last_at t ?B of Some p \<Rightarrow> Some p | None \<Rightarrow> at_ts t A)))"
    by blast
  show ?thesis
    using 5 2 3 4 mergeCandles_idem [of "Some A" B] mergeCandles_example by blast
qed

theorem mergeCandles_series_witness:
  "ascending (map toPricePoint [exampleCandle 100 10, exampleCandle 200 20])
   \<and> mergeCandles (Some (map toPricePoint [exampleCandle 100 10, exampleCandle 200 20])) []
     = Some (map toPricePoint [exampleCandle 100 10, exampleCandle 200 20])
   \<and> mergeCandles (mergeCandles (Some (map toPricePoint [exampleCandle 100 10, exampleCandle 200 20]))
          [exampleCandle 200 21, exampleCandle 300 30]) [exampleCandle 200 21, exampleCandle 300 30]
     = mergeCandles (Some (map toPricePoint [exampleCandle 100 10, exampleCandle 200 20]))
          [exampleCandle 200 21, exampleCandle 300 30]"
proof -
  let ?A = "map toPricePoint [exampleCandle 100 10, exampleCandle 200 20]"
  let ?B = "[exampleCandle 200 21, exampleCandle 300 30]"
  have a: "ascending ?A"
    by (simp add: ascending_def toPricePoint_def exampleCandle_def)
  have "mergeCandles (Some ?A) [] = Some ?A"
    using mergeCandles_series [OF a, of ?B] by (elim conjE)
  moreover have "mergeCandles (mergeCandles (Some ?A) ?B) ?B = mergeCandles (Some ?A) ?B"
    using mergeCandles_series [OF a, of ?B] by (elim conjE)
  ultimately show ?thesis using a by (intro conjI)
qed

text \<open>
  Claim C9. When the state is empty (or absent) the updater returns it unchanged: for
  every non-empty batch \<open>B\<close> the merge of \<open>B\<close> into the empty series is the empty series,
  not the converted batch, and the merge into an absent state is the absent state.
\<close>

theorem mergeCandles_empty_state:
  assumes "B \<noteq> []"
  shows "mergeCandles (Some []) B = Some []
       \<and> mergeCandles (Some []) B \<noteq> Some (map toPricePoint B)
       \<and> historyUpdater (Some []) B = Some []
       \<and> mergeCandles None B = None"
  using assms by (simp add: mergeCandles_def historyUpdater_def)

theorem mergeCandles_empty_state_witness:
  "[exampleCandle 200 21] \<noteq> []
   \<and> mergeCandles (Some []) [exampleCandle 200 21] = Some []
   \<and> mergeCandles None [exampleCandle 200 21] = None"
  using mergeCandles_empty_state [of "[exampleCandle 200 21]"] by simp

section \<open>Properties of the technical indicators\<close>

lemma fold_push: "fold (\<lambda>i result. result @ [g i]) is acc = acc @ map g is"
  by (induction "is" arbitrary: acc) simp_all

lemma fold_add: "fold (\<lambda>x (s::real). s + f x) xs a = a + sum_list (map f xs)"
  by (induction xs arbitrary: a) simp_all

lemma map_nth_upt: "b \<le> length S \<Longrightarrow> map ((!) S) [a..<b] = take (b - a) (drop a S)"
  by (auto simp: list_eq_iff_nth_eq)

lemma windowSum_eq:
  assumes "p \<le> i + 1"
  shows "windowSum S i p = sum_list (window S i p)"
proof -
  have "windowSum S i p = (\<Sum>j = 0..<p. S ! (i - j))"
    by (simp add: windowSum_def fold_add interv_sum_list_conv_sum_set_nat)
  also have "\<dots> = (\<Sum>k = i + 1 - p..<i + 1. S ! k)"
    using assms
    by (intro sum.reindex_bij_witness [where i = "\<lambda>k. i - k" and j = "\<lambda>j. i - j"]) auto
  also have "\<dots> = sum_list (window S i p)"
    by (simp add: window_def interv_sum_list_conv_sum_set_nat)
  finally show ?thesis .
qed

lemma calculateSMA_map:
  "calculateSMA S p = map (\<lambda>i. if int i < int p - 1 then None else Some (windowSum S i p / real p)) [0..<length S]"
proof -
  have "calculateSMA S p = fold (\<lambda>i result. result @ [if int i < int p - 1 then None else Some (windowSum S i p / real p)]) [0..<length S] []"
    unfolding calculateSMA_def by (rule arg_cong [where f = "\<lambda>f. fold f _ _"]) auto
  then show ?thesis by (simp add: fold_push)
qed

lemma SMA_example: "calculateSMA [1, 2, 3, 4, 5] 3 = [None, None, Some 2, Some 3, Some 4]"
  by (simp add: calculateSMA_def windowSum_def upt_rec numeral_nat)

text \<open>
  Claim C3. For every price sequence \<open>S\<close> and positive period \<open>p\<close>, the output of
  \<^const>\<open>calculateSMA\<close> is as long as \<open>S\<close>; at every index \<open>i < |S|\<close> it is undefined
  when \<open>i < p - 1\<close> and otherwise the arithmetic mean of the window \<open>S[i-p+1..i]\<close>, which
  has \<open>p\<close> elements; and \<open>SMA([1,2,3,4,5], 3) = [_, _, 2, 3, 4]\<close>.
\<close>

theorem calculateSMA_mean:
  assumes "0 < p"
  shows "length (calculateSMA S p) = length S
       \<and> (\<forall>i < length S. calculateSMA S p ! i =
            (if i < p - 1 then None else Some (mean (window S i p))))
       \<and> (\<forall>i < length S. p - 1 \<le> i \<longrightarrow> length (window S i p) = p \<and> window S i p = take p (drop (i + 1 - p) S))
       \<and> calculateSMA [1, 2, 3, 4, 5] 3 = [None, None, Some 2, Some 3, Some 4]"
proof -
  have 1: "length (calculateSMA S p) = length S" by (simp add: calculateSMA_map)
  have 2: "calculateSMA S p ! i = (if i < p - 1 then None else Some (mean (window S i p)))"
    if "i < length S" for i
  proof (cases "i < p - 1")
    case True
    then show ?thesis using that by (simp add: calculateSMA_map)
  next
    case False
    then have le: "p \<le> i + 1" by simp
    have "length (window S i p) = p" using le by (auto simp: window_def)
    moreover have "\<not> int i < int p - 1" using le by linarith
    ultimately show ?thesis using that le
      by (simp add: calculateSMA_map windowSum_eq mean_def)
  qed
  have 3: "length (window S i p) = p \<and> window S i p = take p (drop (i + 1 - p) S)"
    if "i < length S" "p - 1 \<le> i" for i
  proof -
    have le: "p \<le> i + 1" using that by simp
    have "window S i p = map ((!) S) [i + 1 - p..<i + 1]" by (simp add: window_def)
    also have "\<dots> = take (i + 1 - (i + 1 - p)) (drop (i + 1 - p) S)"
      using that by (intro map_nth_upt) simp
    also have "\<dots> = take p (drop (i + 1 - p) S)"
      using le by simp
    finally have eq: "window S i p = take p (drop (i + 1 - p) S)" .
    have "length (window S i p) = p" using le by (auto simp: window_def)
    with eq show ?thesis by (rule_tac conjI)
  qed
  show ?thesis using 1 2 3 SMA_example by blast
qed

lemma calculateEMA_run: "calculateEMA S p = emaRun S p (length S)"
  unfolding calculateEMA_def emaRun_def Let_def
  by (rule arg_cong [where f = "\<lambda>f. fold f _ _"])
     (auto simp: emaStep_def fun_eq_iff split: option.splits)

lemma emaRun_Suc: "emaRun S p (Suc n) = emaRun S p n @ [emaStep S p n (emaRun S p n)]"
  by (simp add: emaRun_def)

lemma emaRun_length: "length (emaRun S p n) = n"
  by (induction n) (simp_all add: emaRun_Suc, simp add: emaRun_def)

lemma emaRun_nth: "i < n \<Longrightarrow> emaRun S p n ! i = emaStep S p i (emaRun S p i)"
proof (induction n)
  case 0
  then show ?case by simp
next
  case (Suc n)
  show ?case
  proof (cases "i = n")
    case True
    then show ?thesis by (simp add: emaRun_Suc nth_append emaRun_length)
  next
    case False
    with Suc show ?thesis by (simp add: emaRun_Suc nth_append emaRun_length)
  qed
qed

lemma emaRun_prev:
  assumes "0 < i" "i \<le> n"
  shows "jsIndex (emaRun S p i) (int i - 1) = emaRun S p n ! (i - 1)"
proof -
  have "jsIndex (emaRun S p i) (int i - 1) = emaRun S p i ! (i - 1)"
    using assms by (simp add: jsIndex_def emaRun_length nat_diff_distrib')
  also have "\<dots> = emaStep S p (i - 1) (emaRun S p (i - 1))"
    using assms by (simp add: emaRun_nth)
  also have "\<dots> = emaRun S p n ! (i - 1)"
    using assms by (simp add: emaRun_nth)
  finally show ?thesis .
qed

lemma EMA_example: "calculateEMA [1, 2, 3, 4, 5] 3 = [None, None, Some 2, Some 3, Some 4]"
  by (simp add: calculateEMA_def windowSum_def upt_rec numeral_nat jsIndex_def)

text \<open>
  Claim C4. For every price sequence \<open>S\<close> and positive period \<open>p\<close>:
  \<^const>\<open>calculateEMA\<close> is undefined at every \<open>i < p - 1\<close>; at \<open>p - 1\<close> it equals the
  simple moving average there; at every \<open>i > p - 1\<close> it is
  \<open>S[i] * k + EMA[i-1] * (1 - k)\<close> with \<open>k = 2 / (p + 1)\<close>, and undefined when the
  previous value is undefined. (The previous value is in fact always defined from
  \<open>p - 1\<close> on: the last conjunct.)
\<close>

theorem calculateEMA_recurrence:
  assumes "0 < p"
  shows "length (calculateEMA S p) = length S
       \<and> (\<forall>i < length S. i < p - 1 \<longrightarrow> calculateEMA S p ! i = None)
       \<and> (p - 1 < length S \<longrightarrow> calculateEMA S p ! (p - 1) = calculateSMA S p ! (p - 1))
       \<and> (\<forall>i < length S. p - 1 < i \<longrightarrow> calculateEMA S p ! i =
            (case calculateEMA S p ! (i - 1) of
               None \<Rightarrow> None
             | Some e \<Rightarrow> Some (S ! i * (2 / (real p + 1)) + e * (1 - 2 / (real p + 1)))))
       \<and> (\<forall>i < length S. p - 1 \<le> i \<longrightarrow> calculateEMA S p ! i \<noteq> None)"
proof -
  let ?E = "calculateEMA S p"
  have E: "?E = emaRun S p (length S)" by (rule calculateEMA_run)
  have 1: "length ?E = length S" by (simp add: E emaRun_length)
  have 2: "?E ! i = None" if "i < length S" "i < p - 1" for i
  proof -
    have "int i < int p - 1" using that by linarith
    then show ?thesis using that by (simp add: E emaRun_nth emaStep_def)
  qed
  have 3: "?E ! (p - 1) = calculateSMA S p ! (p - 1)" if "p - 1 < length S"
    using that assms by (simp add: E emaRun_nth emaStep_def calculateSMA_map of_nat_diff)
  have 4: "?E ! i = (case ?E ! (i - 1) of None \<Rightarrow> None
             | Some e \<Rightarrow> Some (S ! i * (2 / (real p + 1)) + e * (1 - 2 / (real p + 1))))"
    if "i < length S" "p - 1 < i" for i
  proof -
    have "0 < i" "i \<le> length S" using that by simp_all
    then have prev: "jsIndex (emaRun S p i) (int i - 1) = ?E ! (i - 1)"
      unfolding E by (rule emaRun_prev)
    have "\<not> int i < int p - 1" "int i \<noteq> int p - 1" using that assms by linarith+
    then have "emaStep S p i (emaRun S p i) = (case ?E ! (i - 1) of None \<Rightarrow> None
             | Some e \<Rightarrow> Some (S ! i * (2 / (real p + 1)) + e * (1 - 2 / (real p + 1))))"
      by (simp add: emaStep_def prev split: option.splits)
    then show ?thesis using that by (simp add: E emaRun_nth)
  qed
  have 5: "?E ! i \<noteq> None" if "i < length S" "p - 1 \<le> i" for i
    using that
  proof (induction i)
    case 0
    then have "p = 1" using assms by simp
    then show ?case using 3 0 by (simp add: calculateSMA_map)
  next
    case (Suc i)
    show ?case
    proof (cases "p - 1 = Suc i")
      case True
      then show ?thesis using 3 Suc.prems by (simp add: calculateSMA_map)
    next
      case False
      then have "p - 1 < Suc i" "p - 1 \<le> i" using Suc.prems by simp_all
      then show ?thesis using 4 [of "Suc i"] Suc by (auto split: option.splits)
    qed
  qed
  show ?thesis using 1 2 3 4 5 by blast
qed

lemma fold_push2:
  "fold (\<lambda>i (u, l). (u @ [a i], l @ [b i])) is (U, L) = (U @ map a is, L @ map b is)"
  by (induction "is" arbitrary: U L) simp_all

lemma bands_map:
  "calculateBollingerBands S p m =
     \<lparr> upper = map (bandValue S p m 1) [0..<length S], middle = calculateSMA S p,
       lower = map (bandValue S p m (- 1)) [0..<length S] \<rparr>"
proof -
  have "(\<lambda>i (upper, lower).
            if int i < int p - 1 then (upper @ [None], lower @ [None])
            else (case jsIndex (calculateSMA S p) (int i) of
                    None \<Rightarrow> (upper @ [None], lower @ [None])
                  | Some middleValue \<Rightarrow>
                      let stdDev = calculateStandardDeviation (slice S (int i - int p + 1) (int i + 1))
                      in (upper @ [Some (middleValue + stdDev * m)],
                          lower @ [Some (middleValue - stdDev * m)])))
        = (\<lambda>i (u, l). (u @ [bandValue S p m 1 i], l @ [bandValue S p m (- 1) i]))"
    by (auto simp: fun_eq_iff bandValue_def Let_def split: option.splits)
  then show ?thesis
    by (simp add: calculateBollingerBands_def Let_def fold_push2)
qed

lemma calculateStandardDeviation_population:
  "xs \<noteq> [] \<Longrightarrow> calculateStandardDeviation xs = populationStdDev xs"
  by (simp add: calculateStandardDeviation_def populationStdDev_def mean_def Let_def fold_add)

lemma slice_window:
  assumes "i < length S" "p \<le> i + 1"
  shows "slice S (int i - int p + 1) (int i + 1) = window S i p"
proof -
  have "window S i p = map ((!) S) [i + 1 - p..<i + 1]" by (simp add: window_def)
  also have "\<dots> = take (i + 1 - (i + 1 - p)) (drop (i + 1 - p) S)"
    using assms by (intro map_nth_upt) simp
  finally have w: "window S i p = take p (drop (i + 1 - p) S)" using assms by simp
  have k: "nat (int i - int p + 1) = i + 1 - p" using assms by linarith
  have "slice S (int i - int p + 1) (int i + 1) = take p (drop (i + 1 - p) S)"
    using assms by (simp add: slice_def Let_def min_def k) 
  with w show ?thesis by simp
qed


text \<open>The three theorems at concrete sequences.\<close>

theorem calculateSMA_mean_witness:
  "(0::nat) < 3
   \<and> length (calculateSMA [1, 2, 3, 4, 5] 3) = 5
   \<and> calculateSMA [1, 2, 3, 4, 5] 3 ! 1 = None
   \<and> calculateSMA [1, 2, 3, 4, 5] 3 ! 4 = Some (mean [3, 4, 5])"
proof -
  have p: "(0::nat) < 3" by simp
  have w: "window [1, 2, 3, 4, 5] 4 3 = [3, 4, 5]"
    by (simp add: window_def upt_rec)
  have all: "\<forall>i < length [1, 2, 3, 4, 5::real]. calculateSMA [1, 2, 3, 4, 5] 3 ! i =
      (if i < 3 - 1 then None else Some (mean (window [1, 2, 3, 4, 5] i 3)))"
    using calculateSMA_mean [OF p, of "[1, 2, 3, 4, 5]"] by (elim conjE)
  have "length (calculateSMA [1, 2, 3, 4, 5] 3) = length [1, 2, 3, 4, 5::real]"
    using calculateSMA_mean [OF p, of "[1, 2, 3, 4, 5]"] by (elim conjE)
  moreover have "calculateSMA [1, 2, 3, 4, 5] 3 ! 1 = None"
    using all [rule_format, of 1] by simp
  moreover have "calculateSMA [1, 2, 3, 4, 5] 3 ! 4 = Some (mean [3, 4, 5])"
    using all [rule_format, of 4] w by simp
  ultimately show ?thesis by simp
qed

theorem calculateEMA_recurrence_witness:
  "(0::nat) < 3
   \<and> calculateEMA [1, 2, 3, 4, 5] 3 ! 2 = calculateSMA [1, 2, 3, 4, 5] 3 ! 2
   \<and> calculateEMA [1, 2, 3, 4, 5] 3 ! 3 =
       (case calculateEMA [1, 2, 3, 4, 5] 3 ! 2 of None \<Rightarrow> None
        | Some e \<Rightarrow> Some (4 * (1 / 2) + e * (1 / 2)))"
proof -
  have p: "(0::nat) < 3" by simp
  let ?S = "[1, 2, 3, 4, 5::real]"
  have a: "3 - 1 < length ?S \<longrightarrow> calculateEMA ?S 3 ! (3 - 1) = calculateSMA ?S 3 ! (3 - 1)"
    using calculateEMA_recurrence [OF p, of ?S] by (elim conjE)
  have b: "\<forall>i < length ?S. 3 - 1 < i \<longrightarrow> calculateEMA ?S 3 ! i =
            (case calculateEMA ?S 3 ! (i - 1) of
               None \<Rightarrow> None
             | Some e \<Rightarrow> Some (?S ! i * (2 / (real 3 + 1)) + e * (1 - 2 / (real 3 + 1))))"
    using calculateEMA_recurrence [OF p, of ?S] by (elim conjE)
  have "calculateEMA ?S 3 ! 2 = calculateSMA ?S 3 ! 2" using a by simp
  moreover have "calculateEMA ?S 3 ! 3 =
       (case calculateEMA ?S 3 ! 2 of None \<Rightarrow> None
        | Some e \<Rightarrow> Some (4 * (1 / 2) + e * (1 / 2)))"
    using b [rule_format, of 3] by (simp split: option.splits)
  ultimately show ?thesis by simp
qed


section \<open>Properties of the error classification\<close>

lemma startsWith_iff: "startsWith s pat \<longleftrightarrow> (\<exists>b. s = pat @ b)"
  by (induction s pat rule: startsWith.induct) auto

lemma includes_iff: "str_includes s pat \<longleftrightarrow> (\<exists>a b. s = a @ pat @ b)"
proof (induction s)
  case Nil
  then show ?case by simp
next
  case (Cons c cs)
  show ?case
  proof
    assume "str_includes (c # cs) pat"
    then consider "startsWith (c # cs) pat" | "str_includes cs pat" by auto
    then show "\<exists>a b. c # cs = a @ pat @ b"
    proof cases
      case 1
      then obtain b where "c # cs = pat @ b" by (auto simp: startsWith_iff)
      then have "c # cs = [] @ pat @ b" by simp
      then show ?thesis by blast
    next
      case 2
      then obtain a b where "cs = a @ pat @ b" using Cons.IH by auto
      then have "c # cs = (c # a) @ pat @ b" by simp
      then show ?thesis by blast
    qed
  next
    assume "\<exists>a b. c # cs = a @ pat @ b"
    then obtain a b where ab: "c # cs = a @ pat @ b" by blast
    show "str_includes (c # cs) pat"
    proof (cases a)
      case Nil
      then have "startsWith (c # cs) pat" using ab by (auto simp: startsWith_iff)
      then show ?thesis by simp
    next
      case (Cons x a')
      then have "cs = a' @ pat @ b" using ab by simp
      then have "str_includes cs pat" using Cons.IH by blast
      then show ?thesis by simp
    qed
  qed
qed

text \<open>
  Claim C10. \<^const>\<open>isRateLimitError\<close> holds of a caught value exactly when it is a
  \<^verbatim>\<open>RateLimitError\<close>, or an \<^verbatim>\<open>Error\<close> whose lowercased message contains
  \<^verbatim>\<open>rate limit\<close>, \<^verbatim>\<open>too many requests\<close> or \<^verbatim>\<open>429\<close>; of a value that is not an
  \<^verbatim>\<open>Error\<close> it is false. So a plain \<^verbatim>\<open>Error("HTTP 429")\<close> is classified as a rate
  limit by its text alone.
\<close>

theorem isRateLimitError_iff:
  "(isRateLimitError e \<longleftrightarrow>
      instanceofRateLimitError e
      \<or> (instanceofError e
          \<and> (\<exists>a b. toLowerCase (message e) = a @ ''rate limit'' @ b
                  \<or> toLowerCase (message e) = a @ ''too many requests'' @ b
                  \<or> toLowerCase (message e) = a @ ''429'' @ b)))
   \<and> (\<not> instanceofError e \<longrightarrow> \<not> isRateLimitError e)
   \<and> isRateLimitError (OtherError ''HTTP 429'')
   \<and> \<not> instanceofRateLimitError (OtherError ''HTTP 429'')"
proof -
  have inst: "instanceofRateLimitError e \<Longrightarrow> instanceofError e"
    by (cases e) simp_all
  have 1: "isRateLimitError e \<longleftrightarrow>
      instanceofRateLimitError e
      \<or> (instanceofError e
          \<and> (\<exists>a b. toLowerCase (message e) = a @ ''rate limit'' @ b
                  \<or> toLowerCase (message e) = a @ ''too many requests'' @ b
                  \<or> toLowerCase (message e) = a @ ''429'' @ b))"
    unfolding isRateLimitError_def Let_def includes_iff by auto
  have 2: "\<not> instanceofError e \<longrightarrow> \<not> isRateLimitError e"
    using inst by (auto simp: isRateLimitError_def)
  have 3: "isRateLimitError (OtherError ''HTTP 429'')"
    by (simp add: isRateLimitError_def toLowerCase_def lowerChar_def)
  show ?thesis using 1 2 3 by simp
qed

theorem isRateLimitError_iff_witness:
  "\<not> instanceofError NonError \<and> \<not> isRateLimitError NonError
   \<and> isRateLimitError (ServerTimeoutError ''Too Many Requests'')"
proof -
  have "\<not> isRateLimitError NonError"
    using isRateLimitError_iff [of NonError] by simp
  moreover have "isRateLimitError (ServerTimeoutError ''Too Many Requests'')"
    using isRateLimitError_iff [of "ServerTimeoutError ''Too Many Requests''"]
    by (simp add: isRateLimitError_def toLowerCase_def lowerChar_def)
  ultimately show ?thesis by simp
qed

section \<open>Properties of the timezone conversion\<close>

lemma str_includes_char: "str_includes s [c] \<longleftrightarrow> c \<in> set s"
  by (induction s) auto

text \<open>
  Claim C8. On every platform, \<^const>\<open>convertTimezone\<close> returns its input when the two
  time zones are equal, and when the input has no time of day (no space, the date-only
  form) whatever the two zones are.
\<close>

theorem convertTimezone_unchanged:
  "convertTimezone pf x Z Z = x
   \<and> (CHR '' '' \<notin> set x \<longrightarrow> convertTimezone pf x Z1 Z2 = x)"
  by (simp add: convertTimezone_def hasTime_def str_includes_char)

theorem convertTimezone_unchanged_witness:
  "CHR '' '' \<notin> set ''2024-01-01''
   \<and> convertTimezone barePlatform ''2024-01-01'' ''Asia/Hong_Kong'' ''America/New_York''
       = ''2024-01-01''
   \<and> convertTimezone barePlatform ''2024-01-01 09:00'' ''UTC'' ''UTC'' = ''2024-01-01 09:00''"
  using convertTimezone_unchanged [of barePlatform "''2024-01-01''" "''UTC''"
      "''Asia/Hong_Kong''" "''America/New_York''"]
    convertTimezone_unchanged [of barePlatform "''2024-01-01 09:00''" "''UTC''"]
  by simp

section \<open>Properties of the market hours\<close>

lemma scan_steps:
  "(\<forall>j < n. (d + j) mod 7 \<notin> set days) \<Longrightarrow> (d + n) mod 7 \<in> set days \<Longrightarrow> d < 7
   \<Longrightarrow> scanNextTradingDay days k d = Some (k + n)"
proof (induction n arbitrary: k d)
  case 0
  then show ?case by (simp add: scanNextTradingDay.simps)
next
  case (Suc n)
  from Suc.prems(1) have "(d + 0) mod 7 \<notin> set days" by blast
  then have d: "d \<notin> set days" using Suc.prems(3) by simp
  have step: "((d + 1) mod 7 + j) mod 7 = (d + Suc j) mod 7" for j
    by (simp add: mod_add_left_eq)
  have "((d + 1) mod 7 + j) mod 7 \<notin> set days" if "j < n" for j
    using Suc.prems(1) that unfolding step by blast
  moreover have "((d + 1) mod 7 + n) mod 7 \<in> set days"
    using Suc.prems(2) unfolding step .
  ultimately have "scanNextTradingDay days (k + 1) ((d + 1) mod 7) = Some (k + 1 + n)"
    by (intro Suc.IH) simp_all
  then show ?case using d by (subst scanNextTradingDay.simps) simp
qed

lemma scan_needs_day:
  assumes "scanNextTradingDay days k d = Some r"
  shows "set days \<noteq> {}"
proof (rule scanNextTradingDay.raw_induct [where P = "\<lambda>days k d r. set days \<noteq> {}", OF _ assms])
  fix scan :: "nat list \<Rightarrow> nat \<Rightarrow> nat \<Rightarrow> nat option" and days k d r
  assume IH: "\<And>days k d r. scan days k d = Some r \<Longrightarrow> set days \<noteq> {}"
    and step: "(if d \<notin> set days then scan days (k + 1) ((d + 1) mod 7) else Some k) = Some r"
  show "set days \<noteq> {}"
  proof (cases "d \<in> set days")
    case True
    then show ?thesis by auto
  next
    case False
    then have "scan days (k + 1) ((d + 1) mod 7) = Some r" using step by simp
    then show ?thesis by (rule IH)
  qed
qed

lemma next_trading_day_exists:
  assumes "dow < (7::nat)" "dow \<notin> set days" "\<exists>d \<in> set days. d < 7"
  shows "\<exists>k. 1 \<le> k \<and> k \<le> 6 \<and> (dow + k) mod 7 \<in> set days
           \<and> (\<forall>j. 1 \<le> j \<and> j < k \<longrightarrow> (dow + j) mod 7 \<notin> set days)"
proof -
  from assms(3) obtain d where d: "d \<in> set days" "d < 7" by blast
  then have ne: "d \<noteq> dow" using assms(2) by blast
  define j0 where "j0 = (if dow < d then d - dow else d + 7 - dow)"
  have sum: "dow + j0 = (if dow < d then d else d + 7)"
    using assms(1) d(2) by (simp add: j0_def)
  have "1 \<le> j0" "j0 \<le> 6"
    using d(2) assms(1) ne by (auto simp: j0_def)
  moreover have "(dow + j0) mod 7 = d"
    using d(2) by (simp add: sum)
  ultimately have j0: "1 \<le> j0" "j0 \<le> 6" "(dow + j0) mod 7 = d" .
  define Q where "Q j \<longleftrightarrow> 1 \<le> j \<and> (dow + j) mod 7 \<in> set days" for j
  have Qj0: "Q j0" using j0 d(1) by (simp add: Q_def)
  define k where "k = (LEAST j. Q j)"
  have Qk: "Q k" unfolding k_def using Qj0 by (rule LeastI)
  have kle: "k \<le> j0" unfolding k_def using Qj0 by (rule Least_le)
  have "\<not> Q j" if "j < k" for j
    using that unfolding k_def by (rule not_less_Least)
  then have "\<forall>j. 1 \<le> j \<and> j < k \<longrightarrow> (dow + j) mod 7 \<notin> set days"
    by (auto simp: Q_def)
  with Qk kle j0(2) show ?thesis unfolding Q_def by (intro exI [of _ k]) auto
qed

lemma scan_from_tomorrow:
  assumes "1 \<le> k" "(dow + k) mod 7 \<in> set days"
    "\<forall>j. 1 \<le> j \<and> j < k \<longrightarrow> (dow + j) mod 7 \<notin> set days"
  shows "scanNextTradingDay days 1 ((dow + 1) mod 7) = Some k"
proof -
  have step: "((dow + 1) mod 7 + j) mod 7 = (dow + Suc j) mod 7" for j
    by (simp add: mod_add_left_eq)
  have "(dow + Suc j) mod 7 \<notin> set days" if "j < k - 1" for j
    using assms(3) [rule_format, of "Suc j"] that by simp
  then have a: "\<forall>j < k - 1. ((dow + 1) mod 7 + j) mod 7 \<notin> set days"
    unfolding step by blast
  have b: "((dow + 1) mod 7 + (k - 1)) mod 7 \<in> set days"
    unfolding step using assms(1,2) by simp
  have "scanNextTradingDay days 1 ((dow + 1) mod 7) = Some (1 + (k - 1))"
    using a b by (rule scan_steps) simp
  then show ?thesis using assms(1) by simp
qed




text \<open>Every profile of the two tables trades Monday to Friday, so every profile the
  component looks up has a trading day.\<close>

lemma EXCHANGE_CONFIG_trading_days:
  "\<forall>e \<in> set EXCHANGE_CONFIG. tradingDays (snd e) = [1, 2, 3, 4, 5]"
  by (simp add: EXCHANGE_CONFIG_def)

lemma timezoneToConfig_trading_days:
  "\<forall>e \<in> set timezoneToConfig. tradingDays (snd e) = [1, 2, 3, 4, 5]"
  by (simp add: timezoneToConfig_def)

lemma getExchangeConfig_trading_days:
  assumes "getExchangeConfig exchange tz = Some config"
  shows "tradingDays config = [1, 2, 3, 4, 5]"
proof -
  have "map_of EXCHANGE_CONFIG k = Some config \<Longrightarrow> tradingDays config = [1, 2, 3, 4, 5]" for k
    using EXCHANGE_CONFIG_trading_days by (auto dest!: map_of_SomeD)
  moreover have "map_of timezoneToConfig k = Some config \<Longrightarrow> tradingDays config = [1, 2, 3, 4, 5]" for k
    using timezoneToConfig_trading_days by (auto dest!: map_of_SomeD)
  ultimately show ?thesis
    using assms
    by (auto simp: getExchangeConfig_def getConfigFromTimezone_def Let_def
        split: option.splits if_splits)
qed

lemma NYQ_configured: "getExchangeConfig (Some ''NYQ'') None = Some NYQ"
  by (simp add: getExchangeConfig_def EXCHANGE_CONFIG_def NYQ_def)

section \<open>Properties of the retry countdown\<close>

lemma startRetryCountdown_sets:
  "secondsRemaining (startRetryCountdown d w s) = \<lceil>case w of Some x \<Rightarrow> x | None \<Rightarrow> d\<rceil> + 1"
  "isRateLimited (startRetryCountdown d w s)"
  "intervalRef (startRetryCountdown d w s) = None"
  "\<not> isCountingDown (startRetryCountdown d w s)"
  "\<forall>h. intervalRef s = Some h \<longrightarrow> h \<notin> set (activeIntervals (startRetryCountdown d w s))"
  by (auto simp: startRetryCountdown_def clearIntervalRef_def Let_def split: option.splits)

lemma start_from_idle:
  assumes "idle s" "0 < \<lceil>case w of Some x \<Rightarrow> x | None \<Rightarrow> d\<rceil> + 1"
  shows "counting (commitEffects (startRetryCountdown d w s))"
    and "secondsRemaining (commitEffects (startRetryCountdown d w s))
           = \<lceil>case w of Some x \<Rightarrow> x | None \<Rightarrow> d\<rceil> + 1"
    and "pendingTimeouts (commitEffects (startRetryCountdown d w s)) = pendingTimeouts s"
  using assms
  by (auto simp: idle_def counting_def commitEffects_def startRetryCountdown_def
      clearIntervalRef_def effectCleanup_def effectBody_def Let_def)

lemma tick_decrements:
  assumes "counting s" "1 < secondsRemaining s"
  shows "tick s = s \<lparr> secondsRemaining := secondsRemaining s - 1 \<rparr>"
  using assms
  by (simp add: counting_def tick_def intervalFires_def countdownUpdater_def commitEffects_def Let_def)

lemma tick_finishes:
  assumes "counting s" "secondsRemaining s \<le> 1"
  shows "idle (tick s)"
    and "secondsRemaining (tick s) = 0"
    and "pendingTimeouts (tick s) = pendingTimeouts s + 1"
    and "retryCalls (tick s) = retryCalls s"
  using assms
  by (simp_all add: counting_def idle_def tick_def intervalFires_def countdownUpdater_def
      commitEffects_def clearIntervalRef_def effectCleanup_def effectBody_def Let_def)

lemma restart_while_counting:
  assumes "counting s"
  shows "commitEffects (startRetryCountdown d w s) =
           s \<lparr> activeIntervals := [], intervalRef := None, isCountingDown := False,
               secondsRemaining := \<lceil>case w of Some x \<Rightarrow> x | None \<Rightarrow> d\<rceil> + 1 \<rparr>"
  using assms
  by (simp add: counting_def commitEffects_def startRetryCountdown_def clearIntervalRef_def Let_def)

lemma tick_without_timer:
  assumes "activeIntervals s = []" "effectDeps s = Some (isRateLimited s)"
  shows "tick s = s"
  using assms by (simp add: tick_def commitEffects_def)

lemma ticks_without_timer:
  assumes "activeIntervals s = []" "effectDeps s = Some (isRateLimited s)"
  shows "(tick ^^ n) s = s"
  by (induction n) (simp_all add: tick_without_timer [OF assms])

lemma funpow6: "(f ^^ 6) x = f (f (f (f (f (f x)))))"
  by (simp add: numeral_eq_Suc)

text \<open>
  Claim C2, evaluated. From the idle state, \<^verbatim>\<open>startRetryCountdown(5)\<close> sets the
  counter to 6 and starts one timer; a tick decrements; after six ticks the controller
  is idle, the callback has not run inside a tick, and it runs once in the next turn.
  A second \<^verbatim>\<open>startRetryCountdown(5)\<close> while the first countdown runs stops the timer and
  sets the counter to 6, but \<^verbatim>\<open>isRateLimited\<close> does not change, so the effect does not
  run and no timer is started: the state stays as it is for ever and the callback is
  never called.
\<close>

theorem startRetryCountdown_restart_stalls:
  "secondsRemaining firstTrigger = 6 \<and> isRateLimited firstTrigger
   \<and> activeIntervals firstTrigger = [1]
   \<and> secondsRemaining (tick firstTrigger) = 5
   \<and> \<not> isRateLimited ((tick ^^ 6) firstTrigger)
   \<and> activeIntervals ((tick ^^ 6) firstTrigger) = []
   \<and> retryCalls ((tick ^^ 6) firstTrigger) = 0
   \<and> retryCalls (runTimeouts ((tick ^^ 6) firstTrigger)) = 1
   \<and> isRateLimited secondTrigger \<and> secondsRemaining secondTrigger = 6
   \<and> intervalRef secondTrigger = None \<and> activeIntervals secondTrigger = []
   \<and> (\<forall>n. (tick ^^ n) secondTrigger = secondTrigger)
   \<and> (\<forall>n. retryCalls (runTimeouts ((tick ^^ n) secondTrigger)) = 0)"
proof -
  have f: "firstTrigger =
      \<lparr> isRateLimited = True, secondsRemaining = 6, intervalRef = Some 1,
        isCountingDown = True, effectDeps = Some True, activeIntervals = [1],
        nextTimerId = 2, pendingTimeouts = 0, retryCalls = 0 \<rparr>"
    by (simp add: firstTrigger_def mounted_def commitEffects_def startRetryCountdown_def
        clearIntervalRef_def effectCleanup_def effectBody_def useRateLimitRetry_initial_def
        DEFAULT_RETRY_DELAY_SECONDS_def Let_def)
  have t: "tick (\<lparr> isRateLimited = True, secondsRemaining = k, intervalRef = Some h,
        isCountingDown = True, effectDeps = Some True, activeIntervals = [h],
        nextTimerId = m, pendingTimeouts = q, retryCalls = r \<rparr>)
      = \<lparr> isRateLimited = True, secondsRemaining = k - 1, intervalRef = Some h,
        isCountingDown = True, effectDeps = Some True, activeIntervals = [h],
        nextTimerId = m, pendingTimeouts = q, retryCalls = r \<rparr>" if "1 < k" for k h m q r
    using that
    by (simp add: tick_def intervalFires_def countdownUpdater_def commitEffects_def Let_def)
  have last: "tick (\<lparr> isRateLimited = True, secondsRemaining = 1, intervalRef = Some h,
        isCountingDown = True, effectDeps = Some True, activeIntervals = [h],
        nextTimerId = m, pendingTimeouts = q, retryCalls = r \<rparr>)
      = \<lparr> isRateLimited = False, secondsRemaining = 0, intervalRef = None,
        isCountingDown = False, effectDeps = Some False, activeIntervals = [],
        nextTimerId = m, pendingTimeouts = q + 1, retryCalls = r \<rparr>" for h m q r
    by (simp add: tick_def intervalFires_def countdownUpdater_def commitEffects_def
        clearIntervalRef_def effectCleanup_def effectBody_def Let_def)
  have six: "(tick ^^ 6) firstTrigger =
      \<lparr> isRateLimited = False, secondsRemaining = 0, intervalRef = None,
        isCountingDown = False, effectDeps = Some False, activeIntervals = [],
        nextTimerId = 2, pendingTimeouts = 1, retryCalls = 0 \<rparr>"
    unfolding funpow6 by (simp add: f t last)
  have two: "tick (tick firstTrigger) =
      \<lparr> isRateLimited = True, secondsRemaining = 4, intervalRef = Some 1,
        isCountingDown = True, effectDeps = Some True, activeIntervals = [1],
        nextTimerId = 2, pendingTimeouts = 0, retryCalls = 0 \<rparr>"
    by (simp add: f t)
  have s: "secondTrigger =
      \<lparr> isRateLimited = True, secondsRemaining = 6, intervalRef = None,
        isCountingDown = False, effectDeps = Some True, activeIntervals = [],
        nextTimerId = 2, pendingTimeouts = 0, retryCalls = 0 \<rparr>"
    unfolding secondTrigger_def two
    by (simp add: commitEffects_def startRetryCountdown_def clearIntervalRef_def
        DEFAULT_RETRY_DELAY_SECONDS_def Let_def)
  have stuck: "(tick ^^ n) secondTrigger = secondTrigger" for n
    by (rule ticks_without_timer) (simp_all add: s)
  have "retryCalls (runTimeouts secondTrigger) = 0"
    by (simp add: s runTimeouts_def)
  with stuck have calls: "retryCalls (runTimeouts ((tick ^^ n) secondTrigger)) = 0" for n
    by simp
  have "secondsRemaining (tick firstTrigger) = 5" by (simp add: f t)
  moreover have "retryCalls (runTimeouts ((tick ^^ 6) firstTrigger)) = 1"
    by (simp add: six runTimeouts_def)
  ultimately show ?thesis
    using stuck calls by (simp add: six) (simp add: f s)
qed

section \<open>Properties of the auto-refresh countdown\<close>

lemma clearRefreshInterval_oneTimer:
  "oneTimer s \<Longrightarrow> clearRefreshInterval s = s \<lparr> refreshIntervals := [], refreshIntervalRef := None \<rparr>"
  by (auto simp: oneTimer_def clearRefreshInterval_def split: option.splits)

lemma clearRefreshInterval_idem:
  "clearRefreshInterval (s \<lparr> refreshIntervals := [], refreshIntervalRef := None \<rparr>)
     = s \<lparr> refreshIntervals := [], refreshIntervalRef := None \<rparr>"
  by (simp add: clearRefreshInterval_def)

lemma countdownEffect_changed:
  assumes "oneTimer s"
  shows "countdownEffect p (if countdownDeps s = None then s else clearRefreshInterval s) =
     (if \<not> enabled p \<or> isPaused p
      then s \<lparr> refreshIntervals := [], refreshIntervalRef := None \<rparr>
      else s \<lparr> refreshIntervals := [(refreshNextTimerId s, isLoading p)],
               refreshIntervalRef := Some (refreshNextTimerId s),
               refreshNextTimerId := refreshNextTimerId s + 1 \<rparr>)"
  using assms
  by (simp add: countdownEffect_def clearRefreshInterval_oneTimer clearRefreshInterval_idem Let_def)

lemma commitRefresh_changed:
  assumes "oneTimer s" "countdownDeps s \<noteq> Some (enabled p, isPaused p, isLoading p)"
  shows "refreshIntervalRef (commitRefresh p s) =
           (if \<not> enabled p \<or> isPaused p then None else Some (refreshNextTimerId s))"
    and "refreshIntervals (commitRefresh p s) =
           (if \<not> enabled p \<or> isPaused p then [] else [(refreshNextTimerId s, isLoading p)])"
    and "countdownDeps (commitRefresh p s) = Some (enabled p, isPaused p, isLoading p)"
    and "\<not> isRefreshing s \<Longrightarrow> refreshSecondsRemaining (commitRefresh p s) = refreshSecondsRemaining s"
    and "\<not> isRefreshing s \<Longrightarrow> \<not> isRefreshing (commitRefresh p s)"
  using assms(2)
  by (auto simp: commitRefresh_def Let_def countdownEffect_changed [OF assms(1)]
      resetEffect_def resetCountdown_def)

lemma commitRefresh_same:
  assumes "countdownDeps s = Some (enabled p, isPaused p, isLoading p)"
  shows "refreshIntervalRef (commitRefresh p s) = refreshIntervalRef s"
    and "refreshIntervals (commitRefresh p s) = refreshIntervals s"
    and "\<not> isRefreshing s \<Longrightarrow> refreshSecondsRemaining (commitRefresh p s) = refreshSecondsRemaining s"
    and "\<not> isRefreshing s \<Longrightarrow> \<not> isRefreshing (commitRefresh p s)"
  using assms
  by (simp_all add: commitRefresh_def Let_def resetEffect_def resetCountdown_def)

text \<open>
  Claim C7, as the code has it. When a render changes a dependency of the countdown
  effect (or at the mount): with \<^verbatim>\<open>enabled\<close> off or \<^verbatim>\<open>isPaused\<close> on, no timer is left;
  with \<^verbatim>\<open>enabled\<close> on and \<^verbatim>\<open>isPaused\<close> off, the old timer is gone and one new timer
  runs; and, no refresh being in flight, the counter keeps its value.
\<close>

theorem render_toggle:
  assumes "oneTimer s"
    and "countdownDeps s \<noteq> Some (enabled p, isPaused p, isLoading p)"
  shows "(\<not> enabled p \<or> isPaused p \<longrightarrow>
            refreshIntervalRef (render p s) = None \<and> refreshIntervals (render p s) = [])
       \<and> (enabled p \<and> \<not> isPaused p \<longrightarrow>
            refreshIntervalRef (render p s) = Some (refreshNextTimerId s)
          \<and> refreshIntervals (render p s) = [(refreshNextTimerId s, isLoading p)])
       \<and> (\<not> isRefreshing s \<longrightarrow>
            refreshSecondsRemaining (render p s) = refreshSecondsRemaining s)"
proof -
  let ?s1 = "commitRefresh p s"
  have same: "countdownDeps ?s1 = Some (enabled p, isPaused p, isLoading p)"
    using assms by (rule commitRefresh_changed(3))
  have ref: "refreshIntervalRef (render p s) =
      (if \<not> enabled p \<or> isPaused p then None else Some (refreshNextTimerId s))"
    unfolding render_def
    by (simp only: commitRefresh_same(1) [OF same] commitRefresh_changed(1) [OF assms])
  have ints: "refreshIntervals (render p s) =
      (if \<not> enabled p \<or> isPaused p then [] else [(refreshNextTimerId s, isLoading p)])"
    unfolding render_def
    by (simp only: commitRefresh_same(2) [OF same] commitRefresh_changed(2) [OF assms])
  have secs: "refreshSecondsRemaining (render p s) = refreshSecondsRemaining s"
    if "\<not> isRefreshing s"
  proof -
    have "\<not> isRefreshing ?s1" using assms that by (rule commitRefresh_changed(5))
    then have "refreshSecondsRemaining (commitRefresh p ?s1) = refreshSecondsRemaining ?s1"
      using same by (intro commitRefresh_same(3))
    also have "\<dots> = refreshSecondsRemaining s"
      using assms that by (rule commitRefresh_changed(4))
    finally show ?thesis by (simp add: render_def)
  qed
  show ?thesis using ref ints secs by simp
qed

text \<open>Pausing three seconds after the mount and resuming: the counter resumes from 177,
  not from the interval of 180 seconds.\<close>

theorem resume_keeps_counter:
  "refreshSecondsRemaining afterThreeTicks = 177
   \<and> refreshIntervals (render paused afterThreeTicks) = []
   \<and> refreshSecondsRemaining (render running (render paused afterThreeTicks)) = 177
   \<and> refreshSecondsRemaining (render running (render paused afterThreeTicks))
        \<noteq> AUTO_REFRESH_INTERVAL div 1000"
  by (simp add: afterThreeTicks_def refreshTick_def render_def commitRefresh_def
      countdownEffect_def clearRefreshInterval_def resetEffect_def resetCountdown_def
      refreshIntervalFires_def refreshUpdater_def useAutoRefreshCountdown_initial_def
      AUTO_REFRESH_INTERVAL_def running_def paused_def Let_def)

text \<open>The invariant holds at the mount and is kept by every render and every tick.\<close>

lemma oneTimer_initial: "oneTimer useAutoRefreshCountdown_initial"
  by (simp add: oneTimer_def useAutoRefreshCountdown_initial_def)

lemma oneTimer_commitRefresh:
  assumes "oneTimer s"
  shows "oneTimer (commitRefresh p s)"
proof (cases "countdownDeps s = Some (enabled p, isPaused p, isLoading p)")
  case True
  then show ?thesis
    using assms by (auto simp: oneTimer_def commitRefresh_same(1,2) split: option.splits)
next
  case False
  then show ?thesis
    using assms commitRefresh_changed(1,2) [OF assms False] by (auto simp: oneTimer_def split: option.splits)
qed

lemma oneTimer_render: "oneTimer s \<Longrightarrow> oneTimer (render p s)"
  by (simp add: render_def oneTimer_commitRefresh)

lemma refreshUpdater_timers:
  "refreshIntervals (refreshUpdater l s) = refreshIntervals s"
  "refreshIntervalRef (refreshUpdater l s) = refreshIntervalRef s"
  by (simp_all add: refreshUpdater_def)

lemma fires_timers:
  "refreshIntervals (fold refreshIntervalFires ts s) = refreshIntervals s
   \<and> refreshIntervalRef (fold refreshIntervalFires ts s) = refreshIntervalRef s"
  by (induction ts arbitrary: s) (simp_all add: refreshIntervalFires_def refreshUpdater_timers)

lemma oneTimer_refreshTick: "oneTimer s \<Longrightarrow> oneTimer (refreshTick p s)"
  unfolding refreshTick_def
  by (rule oneTimer_render) (auto simp: oneTimer_def fires_timers split: option.splits)

lemma afterThreeTicks_oneTimer: "oneTimer afterThreeTicks"
  unfolding afterThreeTicks_def
  by (intro oneTimer_refreshTick oneTimer_render oneTimer_initial)

theorem render_toggle_witness:
  "oneTimer afterThreeTicks
   \<and> countdownDeps afterThreeTicks \<noteq> Some (enabled paused, isPaused paused, isLoading paused)
   \<and> refreshIntervalRef (render paused afterThreeTicks) = None
   \<and> refreshIntervals (render paused afterThreeTicks) = []
   \<and> refreshSecondsRemaining (render paused afterThreeTicks) = refreshSecondsRemaining afterThreeTicks"
proof -
  have d: "countdownDeps afterThreeTicks = Some (True, False, False)"
    and r: "\<not> isRefreshing afterThreeTicks"
    by (simp_all add: afterThreeTicks_def refreshTick_def render_def commitRefresh_def
      countdownEffect_def clearRefreshInterval_def resetEffect_def resetCountdown_def
      refreshIntervalFires_def refreshUpdater_def useAutoRefreshCountdown_initial_def
      AUTO_REFRESH_INTERVAL_def running_def Let_def)
  have c: "countdownDeps afterThreeTicks \<noteq> Some (enabled paused, isPaused paused, isLoading paused)"
    by (simp add: d paused_def)
  show ?thesis
    using render_toggle [OF afterThreeTicks_oneTimer c] c r afterThreeTicks_oneTimer
    by (simp add: paused_def)
qed

end
